theory Spec2Isabelle
  imports Complex_Main
begin

section \<open>JavaScript values used by the assessment script\<close>

subsection \<open>Numbers\<close>

text \<open>
  A JavaScript Number is an IEEE binary64 value. Only its order matters to the script, so a
  finite Number is carried as the rational it denotes (the sign of zero is never observed).
\<close>

datatype jsnum = NaN | PosInf | NegInf | Fin rat

definition pow2 :: "int \<Rightarrow> rat" where
  "pow2 e = (if 0 \<le> e then 2 ^ nat e else 1 / 2 ^ nat (- e))"

function bit_length :: "int \<Rightarrow> int" where
  "bit_length n = (if n \<le> 0 then 0 else 1 + bit_length (n div 2))"
  by pat_completeness auto
termination
  by (relation "measure nat") auto

declare bit_length.simps [simp del]

text \<open>The binary exponent \<open>\<lfloor>log\<^sub>2 q\<rfloor>\<close> of a positive rational.\<close>

definition ilog2 :: "rat \<Rightarrow> int" where
  "ilog2 q = (if 1 \<le> q then bit_length \<lfloor>q\<rfloor> - 1 else - bit_length (\<lceil>1 / q\<rceil> - 1))"

definition round_half_even :: "rat \<Rightarrow> int" where
  "round_half_even x =
     (let f = \<lfloor>x\<rfloor>; r = x - of_int f
      in if r < 1 / 2 then f
         else if 1 / 2 < r then f + 1
         else if even f then f else f + 1)"

text \<open>
  The Number value for a mathematical value: round to nearest, ties to even, with 53
  significant bits, subnormals below \<open>2\<^sup>-\<^sup>1\<^sup>0\<^sup>2\<^sup>2\<close> and overflow to infinity.
\<close>

definition to_double :: "rat \<Rightarrow> jsnum" where
  "to_double q =
     (if q = 0 then Fin 0
      else
        let a = \<bar>q\<bar>;
            e = max (ilog2 a) (- 1022);
            ulp = pow2 (e - 52);
            v = of_int (round_half_even (a / ulp)) * ulp
        in if pow2 1024 \<le> v then (if q < 0 then NegInf else PosInf)
           else Fin (if q < 0 then - v else v))"

text \<open>
  The magnitude that \<open>to_double\<close> gives to a positive rational, before the overflow test.
\<close>

definition nearest :: "rat \<Rightarrow> rat" where
  "nearest a =
     (let e = max (ilog2 a) (- 1022); ulp = pow2 (e - 52)
      in of_int (round_half_even (a / ulp)) * ulp)"

text \<open>A numeric literal of the source denotes the Number value of its decimal.\<close>

definition lit :: "rat \<Rightarrow> jsnum" where
  "lit q = to_double q"

text \<open>The relational operators on Numbers: every comparison with NaN is false.\<close>

fun js_lt :: "jsnum \<Rightarrow> jsnum \<Rightarrow> bool" where
  "js_lt NaN y = False"
| "js_lt x NaN = False"
| "js_lt (Fin a) (Fin b) = (a < b)"
| "js_lt (Fin a) PosInf = True"
| "js_lt NegInf (Fin b) = True"
| "js_lt NegInf PosInf = True"
| "js_lt x y = False"

fun js_le :: "jsnum \<Rightarrow> jsnum \<Rightarrow> bool" where
  "js_le NaN y = False"
| "js_le x NaN = False"
| "js_le x y = (x = y \<or> js_lt x y)"

definition js_gt :: "jsnum \<Rightarrow> jsnum \<Rightarrow> bool" where
  "js_gt x y = js_lt y x"

definition js_ge :: "jsnum \<Rightarrow> jsnum \<Rightarrow> bool" where
  "js_ge x y = js_le y x"

definition isNaN :: "jsnum \<Rightarrow> bool" where
  "isNaN v = (v = NaN)"

subsection \<open>Strings\<close>

text \<open>
  A JavaScript string is a sequence of UTF-16 code units; a code unit is carried as its
  number. \<open>js\<close> turns an ASCII literal into such a string.
\<close>

type_synonym jsstring = "nat list"

definition js :: "string \<Rightarrow> jsstring" where
  "js s = map of_char s"

text \<open>White space and line terminators, the characters \<open>trim\<close> and the parsers skip.\<close>

definition isWhiteSpace :: "nat \<Rightarrow> bool" where
  "isWhiteSpace c =
     (c = 9 \<or> c = 10 \<or> c = 11 \<or> c = 12 \<or> c = 13 \<or> c = 32 \<or> c = 160 \<or> c = 5760
      \<or> (8192 \<le> c \<and> c \<le> 8202) \<or> c = 8232 \<or> c = 8233 \<or> c = 8239 \<or> c = 8287
      \<or> c = 12288 \<or> c = 65279)"

definition trimStart :: "jsstring \<Rightarrow> jsstring" where
  "trimStart s = dropWhile isWhiteSpace s"

definition trim :: "jsstring \<Rightarrow> jsstring" where
  "trim s = rev (dropWhile isWhiteSpace (rev (dropWhile isWhiteSpace s)))"

text \<open>\<open>s.includes(c)\<close> and \<open>s.split(c)\<close> for a separator of one code unit.\<close>

definition str_includes :: "jsstring \<Rightarrow> nat \<Rightarrow> bool" where
  "str_includes s c = (c \<in> set s)"

fun str_split :: "jsstring \<Rightarrow> nat \<Rightarrow> jsstring list" where
  "str_split [] sep = [[]]"
| "str_split (c # cs) sep =
     (if c = sep then [] # str_split cs sep
      else (case str_split cs sep of [] \<Rightarrow> [[c]] | w # ws \<Rightarrow> (c # w) # ws))"

definition slash :: nat where
  "slash = 47"

subsection \<open>parseInt and parseFloat on strings\<close>

definition isDigit :: "nat \<Rightarrow> bool" where
  "isDigit c = (48 \<le> c \<and> c \<le> 57)"

definition isHexDigit :: "nat \<Rightarrow> bool" where
  "isHexDigit c = (isDigit c \<or> (65 \<le> c \<and> c \<le> 70) \<or> (97 \<le> c \<and> c \<le> 102))"

definition digitValue :: "nat \<Rightarrow> int" where
  "digitValue c = int (if isDigit c then c - 48 else if 97 \<le> c then c - 87 else c - 55)"

definition digitsValue :: "int \<Rightarrow> jsstring \<Rightarrow> int" where
  "digitsValue radix ds = foldl (\<lambda>acc c. radix * acc + digitValue c) 0 ds"

text \<open>An optional sign: whether it is a minus, and the rest of the string.\<close>

fun takeSign :: "jsstring \<Rightarrow> bool \<times> jsstring" where
  "takeSign [] = (False, [])"
| "takeSign (c # cs) =
     (if c = 45 then (True, cs) else if c = 43 then (False, cs) else (False, c # cs))"

text \<open>
  \<open>parseInt(s)\<close> with no radix: leading white space is skipped, a sign is taken, a prefix
  \<open>0x\<close> or \<open>0X\<close> selects radix 16, and the longest run of digits is read; no digit gives NaN.
\<close>

definition parseInt_str :: "jsstring \<Rightarrow> jsnum" where
  "parseInt_str input =
     (let (neg, s) = takeSign (trimStart input);
          hex = (take 2 s = [48, 120] \<or> take 2 s = [48, 88]);
          radix = (if hex then 16 else 10);
          s' = (if hex then drop 2 s else s);
          z = takeWhile (if hex then isHexDigit else isDigit) s'
      in if z = [] then NaN
         else to_double (if neg then - of_int (digitsValue radix z)
                         else of_int (digitsValue radix z)))"

text \<open>The exponent part \<open>e\<close>, sign, digits of a decimal literal; 0 when there is none.\<close>

definition exponentPart :: "jsstring \<Rightarrow> int" where
  "exponentPart s =
     (case s of
        [] \<Rightarrow> 0
      | c # cs \<Rightarrow>
          if c = 101 \<or> c = 69 then
            (let (neg, r) = takeSign cs; ds = takeWhile isDigit r
             in if ds = [] then 0
                else if neg then - digitsValue 10 ds else digitsValue 10 ds)
          else 0)"

definition pow10 :: "int \<Rightarrow> rat" where
  "pow10 e = (if 0 \<le> e then 10 ^ nat e else 1 / 10 ^ nat (- e))"

text \<open>
  What \<open>parseFloat\<close> reads at the start of a string, leading white space skipped: the
  longest prefix that is a decimal literal, that is a sign, then \<open>Infinity\<close>, or digits
  with an optional fraction and exponent. A decimal is carried with its exact value.
\<close>

datatype literal = NoLiteral | InfinityLiteral bool | Decimal rat

definition strDecimalLiteral :: "jsstring \<Rightarrow> literal" where
  "strDecimalLiteral input =
     (let (neg, s) = takeSign (trimStart input)
      in if take 8 s = js ''Infinity'' then InfinityLiteral neg
         else
           let ip = takeWhile isDigit s;
               r1 = dropWhile isDigit s;
               dot = (r1 \<noteq> [] \<and> hd r1 = 46);
               fp = (if dot then takeWhile isDigit (tl r1) else []);
               r2 = (if dot then dropWhile isDigit (tl r1) else r1)
           in if ip = [] \<and> fp = [] then NoLiteral
              else
                let mv = of_int (digitsValue 10 (ip @ fp)) / 10 ^ length fp
                           * pow10 (exponentPart r2)
                in Decimal (if neg then - mv else mv))"

text \<open>\<open>parseFloat(s)\<close>: the Number value of the literal read; no literal gives NaN.\<close>

definition parseFloat_str :: "jsstring \<Rightarrow> jsnum" where
  "parseFloat_str input =
     (case strDecimalLiteral input of
        NoLiteral \<Rightarrow> NaN
      | InfinityLiteral neg \<Rightarrow> (if neg then NegInf else PosInf)
      | Decimal q \<Rightarrow> to_double q)"

subsection \<open>The string of a Number\<close>

text \<open>The decimal digits of a natural number.\<close>

function digits10 :: "int \<Rightarrow> jsstring" where
  "digits10 n = (if n < 10 then [48 + nat n] else digits10 (n div 10) @ [48 + nat (n mod 10)])"
  by pat_completeness auto
termination
  by (relation "measure nat") auto

declare digits10.simps [simp del]

function dec_length :: "int \<Rightarrow> int" where
  "dec_length n = (if n < 10 then 1 else 1 + dec_length (n div 10))"
  by pat_completeness auto
termination
  by (relation "measure nat") auto

declare dec_length.simps [simp del]

text \<open>The \<open>n\<close> with \<open>10\<^sup>n\<^sup>-\<^sup>1 \<le> x < 10\<^sup>n\<close>, for a positive \<open>x\<close>.\<close>

definition decimal_exponent :: "rat \<Rightarrow> int" where
  "decimal_exponent x = (if 1 \<le> x then dec_length \<lfloor>x\<rfloor> else 1 - dec_length (\<lceil>1 / x\<rceil> - 1))"

text \<open>
  The conversion of a positive Number \<open>x\<close> to a string looks for integers \<open>n\<close>, \<open>k\<close> and
  \<open>s\<close> with \<open>k\<close> digits in \<open>s\<close>, such that \<open>s * 10\<^sup>n\<^sup>-\<^sup>k\<close> is read back as \<open>x\<close>, with \<open>k\<close> as
  small as possible and, among several \<open>s\<close>, the one closest to \<open>x\<close> (the even one in a tie).
  For a given \<open>k\<close> only the two \<open>k\<close>-digit decimals around \<open>x\<close> can be closest.
\<close>

definition around :: "rat \<Rightarrow> int \<Rightarrow> (int \<times> int) list" where
  "around x k =
     (let n = decimal_exponent x; f = \<lfloor>x / pow10 (n - k)\<rfloor>
      in [(f, n), if f + 1 < 10 ^ nat k then (f + 1, n) else (10 ^ nat (k - 1), n + 1)])"

definition reads_back :: "rat \<Rightarrow> int \<Rightarrow> int \<times> int \<Rightarrow> bool" where
  "reads_back x k c =
     (10 ^ nat (k - 1) \<le> fst c \<and> fst c < 10 ^ nat k \<and>
      to_double (of_int (fst c) * pow10 (snd c - k)) = Fin x)"

definition distance :: "rat \<Rightarrow> int \<Rightarrow> int \<times> int \<Rightarrow> rat" where
  "distance x k c = \<bar>of_int (fst c) * pow10 (snd c - k) - x\<bar>"

definition closest :: "rat \<Rightarrow> int \<Rightarrow> (int \<times> int) option" where
  "closest x k =
     (case filter (reads_back x k) (around x k) of
        [] \<Rightarrow> None
      | [c] \<Rightarrow> Some c
      | c # c' # cs \<Rightarrow>
          if distance x k c < distance x k c' then Some c
          else if distance x k c' < distance x k c then Some c'
          else if even (fst c) then Some c else Some c')"

text \<open>
  The search from \<open>k\<close> upwards, for at most \<open>m\<close> values of \<open>k\<close>. Seventeen digits always
  suffice for a Number.
\<close>

fun shortest :: "nat \<Rightarrow> int \<Rightarrow> rat \<Rightarrow> int \<times> int" where
  "shortest 0 k x = hd (around x k)"
| "shortest (Suc m) k x = (case closest x k of Some c \<Rightarrow> c | None \<Rightarrow> shortest m (k + 1) x)"

text \<open>
  The string built from the digits of \<open>s\<close> and from \<open>n\<close>: plain digits, a decimal point,
  leading zeros, or the exponent notation when \<open>n\<close> is outside \<open>-5..21\<close>.
\<close>

definition number_notation :: "jsstring \<Rightarrow> int \<Rightarrow> jsstring" where
  "number_notation d n =
     (let k = int (length d) in
      if - 5 \<le> n \<and> n \<le> 21 then
        (if k \<le> n then d @ replicate (nat (n - k)) 48
         else if 0 < n then take (nat n) d @ [46] @ drop (nat n) d
         else [48, 46] @ replicate (nat (- n)) 48 @ d)
      else
        (let e = n - 1; exponentSign = (if e < 0 then 45 else 43)
         in if k = 1 then d @ [101, exponentSign] @ digits10 \<bar>e\<bar>
            else [hd d, 46] @ tl d @ [101, exponentSign] @ digits10 \<bar>e\<bar>))"

definition positive_toString :: "rat \<Rightarrow> jsstring" where
  "positive_toString x = (let (s, n) = shortest 17 1 x in number_notation (digits10 s) n)"

fun Number_toString :: "jsnum \<Rightarrow> jsstring" where
  "Number_toString NaN = js ''NaN''"
| "Number_toString PosInf = js ''Infinity''"
| "Number_toString NegInf = js ''-Infinity''"
| "Number_toString (Fin x) =
     (if x = 0 then js ''0''
      else if x < 0 then 45 # positive_toString (- x)
      else positive_toString x)"

subsection \<open>Field values\<close>

text \<open>
  A record comes out of a JSON response, so a field holds a JSON value, or undefined when
  it is absent. An object is carried as the list of its own properties.
\<close>

datatype json =
    JUndefined
  | JNull
  | JBool bool
  | JNum jsnum
  | JStr jsstring
  | JArr "json list"
  | JObj "(jsstring \<times> json) list"

datatype error = TypeError

text \<open>
  The conversion to a string that \<open>parseInt\<close> and \<open>parseFloat\<close> apply to their argument.
  An array is the join of its elements with commas, null and undefined elements giving the
  empty string. A plain object inherits a \<open>toString\<close> that gives \<open>[object Object]\<close>; an own
  property named \<open>toString\<close> hides it, and since no JSON value can be called and the
  inherited \<open>valueOf\<close> returns the object itself, the conversion then throws a TypeError.
\<close>

fun ToString :: "json \<Rightarrow> error + jsstring"
  and join_elements :: "json list \<Rightarrow> error + jsstring" where
  "ToString JUndefined = Inr (js ''undefined'')"
| "ToString JNull = Inr (js ''null'')"
| "ToString (JBool b) = Inr (if b then js ''true'' else js ''false'')"
| "ToString (JNum x) = Inr (Number_toString x)"
| "ToString (JStr s) = Inr s"
| "ToString (JArr xs) = join_elements xs"
| "ToString (JObj kvs) =
     (if js ''toString'' \<in> set (map fst kvs) then Inl TypeError
      else Inr (js ''[object Object]''))"
| "join_elements [] = Inr []"
| "join_elements (x # xs) =
     (case (if x = JUndefined \<or> x = JNull then Inr [] else ToString x) of
        Inl e \<Rightarrow> Inl e
      | Inr a \<Rightarrow>
          if xs = [] then Inr a
          else (case join_elements xs of Inl e \<Rightarrow> Inl e | Inr b \<Rightarrow> Inr (a @ [44] @ b)))"

definition parseInt :: "json \<Rightarrow> error + jsnum" where
  "parseInt v = (case ToString v of Inl e \<Rightarrow> Inl e | Inr s \<Rightarrow> Inr (parseInt_str s))"

definition parseFloat :: "json \<Rightarrow> error + jsnum" where
  "parseFloat v = (case ToString v of Inl e \<Rightarrow> Inl e | Inr s \<Rightarrow> Inr (parseFloat_str s))"

text \<open>The operator \<open>v ?? d\<close>.\<close>

definition nullish :: "json \<Rightarrow> json \<Rightarrow> json" where
  "nullish v d = (if v = JUndefined \<or> v = JNull then d else v)"

section \<open>The scorer\<close>

text \<open>
  A patient as received: the identifier and the three raw fields, and the three
  annotations that \<open>fetchAllPatients\<close> writes into it after scoring.
\<close>

record patient =
  patient_id :: string
  blood_pressure :: json
  temperature :: json
  age :: json
  riskScore :: "nat option"
  isFever :: "bool option"
  hasDataQualityIssue :: "bool option"

record score_result =
  score :: nat
  res_isFever :: bool
  res_hasDataQualityIssue :: bool

text \<open>
  \<open>isInvalidNumber\<close> is only ever applied to the result of \<open>parseInt\<close> or
  \<open>parseFloat\<close>, a Number: its tests against null, undefined and the empty string are
  false there, which leaves \<open>isNaN\<close>.
\<close>

definition isInvalidNumber :: "jsnum \<Rightarrow> bool" where
  "isInvalidNumber v = (False \<or> False \<or> False \<or> isNaN v)"

text \<open>
  The element of an array pattern \<open>[a, b] = xs\<close>: undefined when the array is too short,
  and calling \<open>trim\<close> on undefined throws.
\<close>

fun element :: "jsstring list \<Rightarrow> nat \<Rightarrow> jsstring option" where
  "element [] i = None"
| "element (x # xs) 0 = Some x"
| "element (x # xs) (Suc i) = element xs i"

definition trim_of :: "jsstring option \<Rightarrow> error + jsstring" where
  "trim_of v = (case v of None \<Rightarrow> Inl TypeError | Some s \<Rightarrow> Inr (trim s))"

text \<open>The threshold chain of \<open>src/assessment.ts\<close>: the severe rule is tested first.\<close>

definition bp_thresholds :: "jsnum \<Rightarrow> jsnum \<Rightarrow> nat" where
  "bp_thresholds systolic diastolic =
     (if js_ge systolic (lit 140) \<or> js_ge diastolic (lit 90) then 3
      else if (js_ge systolic (lit 130) \<and> js_le systolic (lit 139))
              \<or> (js_ge diastolic (lit 80) \<and> js_le diastolic (lit 89)) then 2
      else if js_ge systolic (lit 120) \<and> js_le systolic (lit 129) \<and> js_lt diastolic (lit 80)
        then 1
      else if js_lt systolic (lit 120) \<and> js_lt diastolic (lit 80) then 0
      else 0)"

text \<open>
  The blood-pressure block: the sub-score and whether the block set
  \<open>hasDataQualityIssue\<close>.
\<close>

definition bp_block :: "patient \<Rightarrow> error + (nat \<times> bool)" where
  "bp_block p =
     (case blood_pressure p of
        JStr bp \<Rightarrow>
          if str_includes bp slash then
            (let parts = str_split bp slash in
             case trim_of (element parts 0) of
               Inl e \<Rightarrow> Inl e
             | Inr systolicStr \<Rightarrow>
                 (case parseInt (JStr systolicStr) of
                    Inl e \<Rightarrow> Inl e
                  | Inr systolic \<Rightarrow>
                      (case trim_of (element parts 1) of
                         Inl e \<Rightarrow> Inl e
                       | Inr diastolicStr \<Rightarrow>
                           (case parseInt (JStr diastolicStr) of
                              Inl e \<Rightarrow> Inl e
                            | Inr diastolic \<Rightarrow>
                                if isInvalidNumber systolic \<or> isInvalidNumber diastolic
                                then Inr (0, True)
                                else Inr (bp_thresholds systolic diastolic, False)))))
          else Inr (0, True)
      | _ \<Rightarrow> Inr (0, True))"

text \<open>
  The temperature block: sub-score, fever flag, and whether the quality flag was set. The
  conversion of the field to a string may throw.
\<close>

definition temp_rule :: "jsnum \<Rightarrow> nat \<times> bool \<times> bool" where
  "temp_rule temp =
     (if isInvalidNumber temp then (0, False, True)
      else if js_le temp (lit (995 / 10)) then (0, False, False)
      else if js_ge temp (lit (996 / 10)) \<and> js_le temp (lit (1009 / 10)) then (1, True, False)
      else if js_ge temp (lit 101) then (2, True, False)
      else (0, False, False))"

definition temp_block :: "patient \<Rightarrow> error + (nat \<times> bool \<times> bool)" where
  "temp_block p =
     (case parseFloat (nullish (temperature p) (JStr [])) of
        Inl e \<Rightarrow> Inl e
      | Inr temp \<Rightarrow> Inr (temp_rule temp))"

text \<open>The age block: sub-score and whether the quality flag was set.\<close>

definition age_rule :: "jsnum \<Rightarrow> nat \<times> bool" where
  "age_rule ageNum =
     (if isInvalidNumber ageNum then (0, True)
      else if js_lt ageNum (lit 40) then (0, False)
      else if js_ge ageNum (lit 40) \<and> js_le ageNum (lit 65) then (1, False)
      else if js_gt ageNum (lit 65) then (2, False)
      else (0, False))"

definition age_block :: "patient \<Rightarrow> error + (nat \<times> bool)" where
  "age_block p =
     (case parseInt (nullish (age p) (JStr [])) of
        Inl e \<Rightarrow> Inl e
      | Inr ageNum \<Rightarrow> Inr (age_rule ageNum))"

definition calculateRiskScore :: "patient \<Rightarrow> error + score_result" where
  "calculateRiskScore p =
     (case bp_block p of
        Inl e \<Rightarrow> Inl e
      | Inr (bpScore, bpIssue) \<Rightarrow>
          (case temp_block p of
             Inl e \<Rightarrow> Inl e
           | Inr (tempScore, fever, tempIssue) \<Rightarrow>
               (case age_block p of
                  Inl e \<Rightarrow> Inl e
                | Inr (ageScore, ageIssue) \<Rightarrow>
                    Inr \<lparr>score = bpScore + tempScore + ageScore,
                         res_isFever = fever,
                         res_hasDataQualityIssue = (bpIssue \<or> tempIssue \<or> ageIssue)\<rparr>)))"

subsection \<open>The variant of \<open>src/unnamed/part_001\<close>\<close>

text \<open>There the normal rule is tested first and the severe rule last.\<close>

definition bp_thresholds_part_001 :: "jsnum \<Rightarrow> jsnum \<Rightarrow> nat" where
  "bp_thresholds_part_001 systolic diastolic =
     (if js_lt systolic (lit 120) \<and> js_lt diastolic (lit 80) then 0
      else if js_ge systolic (lit 120) \<and> js_le systolic (lit 129) \<and> js_lt diastolic (lit 80)
        then 1
      else if (js_ge systolic (lit 130) \<and> js_le systolic (lit 139))
              \<or> (js_ge diastolic (lit 80) \<and> js_le diastolic (lit 89)) then 2
      else if js_ge systolic (lit 140) \<or> js_ge diastolic (lit 90) then 3
      else 0)"

definition bp_block_part_001 :: "patient \<Rightarrow> error + (nat \<times> bool)" where
  "bp_block_part_001 p =
     (case blood_pressure p of
        JStr bp \<Rightarrow>
          if str_includes bp slash then
            (let parts = str_split bp slash in
             case trim_of (element parts 0) of
               Inl e \<Rightarrow> Inl e
             | Inr systolicStr \<Rightarrow>
                 (case parseInt (JStr systolicStr) of
                    Inl e \<Rightarrow> Inl e
                  | Inr systolic \<Rightarrow>
                      (case trim_of (element parts 1) of
                         Inl e \<Rightarrow> Inl e
                       | Inr diastolicStr \<Rightarrow>
                           (case parseInt (JStr diastolicStr) of
                              Inl e \<Rightarrow> Inl e
                            | Inr diastolic \<Rightarrow>
                                if isInvalidNumber systolic \<or> isInvalidNumber diastolic
                                then Inr (0, True)
                                else Inr (bp_thresholds_part_001 systolic diastolic, False)))))
          else Inr (0, True)
      | _ \<Rightarrow> Inr (0, True))"

text \<open>
  The two parsers are applied to the raw field there, without \<open>?? ''\<close>; the threshold
  chains of the two blocks are those of \<open>src/assessment.ts\<close>.
\<close>

definition temp_block_part_001 :: "patient \<Rightarrow> error + (nat \<times> bool \<times> bool)" where
  "temp_block_part_001 p =
     (case parseFloat (temperature p) of
        Inl e \<Rightarrow> Inl e
      | Inr temp \<Rightarrow> Inr (temp_rule temp))"

definition age_block_part_001 :: "patient \<Rightarrow> error + (nat \<times> bool)" where
  "age_block_part_001 p =
     (case parseInt (age p) of
        Inl e \<Rightarrow> Inl e
      | Inr ageNum \<Rightarrow> Inr (age_rule ageNum))"

definition calculateRiskScore_part_001 :: "patient \<Rightarrow> error + score_result" where
  "calculateRiskScore_part_001 p =
     (case bp_block_part_001 p of
        Inl e \<Rightarrow> Inl e
      | Inr (bpScore, bpIssue) \<Rightarrow>
          (case temp_block_part_001 p of
             Inl e \<Rightarrow> Inl e
           | Inr (tempScore, fever, tempIssue) \<Rightarrow>
               (case age_block_part_001 p of
                  Inl e \<Rightarrow> Inl e
                | Inr (ageScore, ageIssue) \<Rightarrow>
                    Inr \<lparr>score = bpScore + tempScore + ageScore,
                         res_isFever = fever,
                         res_hasDataQualityIssue = (bpIssue \<or> tempIssue \<or> ageIssue)\<rparr>)))"

text \<open>A patient as it arrives, not yet annotated.\<close>

definition mk_patient :: "string \<Rightarrow> json \<Rightarrow> json \<Rightarrow> json \<Rightarrow> patient" where
  "mk_patient i bp t a =
     \<lparr>patient_id = i, blood_pressure = bp, temperature = t, age = a,
      riskScore = None, isFever = None, hasDataQualityIssue = None\<rparr>"

section \<open>The page fetcher\<close>

record pagination =
  pg_total :: "nat option"
  pg_hasNext :: json

text \<open>The body \<open>res.data\<close> of a successful response; each of its two fields may be missing.\<close>

record body =
  body_data :: "patient list option"
  body_pagination :: "pagination option"

text \<open>
  What \<open>axios.get\<close> does: it resolves with a body (possibly none), or throws an error
  that carries the status of the response, or no status when there was no response.
\<close>

datatype response = Ok "body option" | Fail "nat option"

record payload =
  high_risk_patients :: "string list"
  fever_patients :: "string list"
  data_quality_issues :: "string list"

text \<open>
  The remote service: its answer to the \<open>n\<close>-th request of the run, for a page and a
  limit, and whether it accepts a submission.
\<close>

record service =
  get_response :: "nat \<Rightarrow> nat \<Rightarrow> nat \<Rightarrow> response"
  post_succeeds :: "payload \<Rightarrow> bool"

text \<open>
  The effects of the script, in order: requests, pauses, console messages and, to tell the
  calls apart, each entry into \<open>fetchPatientsPage\<close>.
\<close>

datatype event =
    Get nat nat
  | Sleep nat
  | WarnRetry nat nat nat "nat option"
  | ErrorUnrecoverable nat
  | CallFetchPatientsPage nat nat
  | LogStarted
  | WarnNoPatients nat
  | WarnFinalFailure nat
  | WarnShortfall nat nat
  | LogCompleted
  | Post payload
  | LogSubmitted
  | ErrorSubmit

record world =
  requests :: nat
  trace :: "event list"
  isFetching :: bool

definition emit :: "event list \<Rightarrow> world \<Rightarrow> world" where
  "emit es w = w\<lparr>trace := trace w @ es\<rparr>"

text \<open>\<open>sleep(ms)\<close> only lets time pass.\<close>

definition sleep :: "nat \<Rightarrow> world \<Rightarrow> world" where
  "sleep ms w = emit [Sleep ms] w"

record fetched =
  patients :: "patient list"
  pagination :: "pagination option"

definition maxRetries :: nat where
  "maxRetries = 10"

definition baseDelay :: nat where
  "baseDelay = 1000"

text \<open>\<open>[429, 500, 502, 503].includes(status)\<close>\<close>

definition transient :: "nat option \<Rightarrow> bool" where
  "transient status = (status \<in> set [Some 429, Some 500, Some 502, Some 503])"

definition empty_result :: fetched where
  "empty_result = \<lparr>patients = [], pagination = None\<rparr>"

text \<open>\<open>res.data?.data ?? []\<close> and \<open>res.data?.pagination ?? null\<close>\<close>

definition extract_body :: "body option \<Rightarrow> fetched" where
  "extract_body b =
     \<lparr>patients = (case b of None \<Rightarrow> []
                   | Some b' \<Rightarrow> (case body_data b' of None \<Rightarrow> [] | Some ps \<Rightarrow> ps)),
      pagination = (case b of None \<Rightarrow> None | Some b' \<Rightarrow> body_pagination b')\<rparr>"

text \<open>The retry loop of \<open>fetchPatientsPage\<close>, from a given value of \<open>retries\<close>.\<close>

function fetch_attempts :: "service \<Rightarrow> nat \<Rightarrow> nat \<Rightarrow> nat \<Rightarrow> world \<Rightarrow> fetched \<times> world" where
  "fetch_attempts srv page limit retries w =
     (if retries < maxRetries then
        (let w1 = emit [Get page limit] (w\<lparr>requests := requests w + 1\<rparr>) in
         case get_response srv (requests w) page limit of
           Ok b \<Rightarrow> (extract_body b, w1)
         | Fail status \<Rightarrow>
             if transient status then
               (let delay = baseDelay * 2 ^ retries
                in fetch_attempts srv page limit (retries + 1)
                     (sleep delay (emit [WarnRetry (retries + 1) page delay status] w1)))
             else (empty_result, emit [ErrorUnrecoverable page] w1))
      else (empty_result, w))"
  by pat_completeness auto
termination
  by (relation "measure (\<lambda>(srv, page, limit, retries, w). maxRetries - retries)") auto

declare fetch_attempts.simps [simp del]

definition fetchPatientsPage :: "service \<Rightarrow> nat \<Rightarrow> nat \<Rightarrow> world \<Rightarrow> fetched \<times> world" where
  "fetchPatientsPage srv page limit w =
     fetch_attempts srv page limit 0 (emit [CallFetchPatientsPage page limit] w)"

section \<open>The orchestrator\<close>

text \<open>The local variables of \<open>fetchAllPatients\<close>.\<close>

record orch =
  allPatients :: "patient list"
  page :: nat
  hasNext :: bool
  failedPages :: "nat list"
  expectedTotal :: "nat option"
  highRiskPatientIds :: "string list"
  feverPatientIds :: "string list"
  dataQualityIssueIds :: "string list"

definition limit :: nat where
  "limit = 5"

text \<open>
  The body of the loop over the patients of a page in the main loop: the patient is
  annotated and its identifier pushed onto the lists it belongs to.
\<close>

definition score_patient :: "patient \<Rightarrow> orch \<Rightarrow> error + (patient \<times> orch)" where
  "score_patient p s =
     (case calculateRiskScore p of
        Inl e \<Rightarrow> Inl e
      | Inr r \<Rightarrow>
          (let p' = p\<lparr>riskScore := Some (score r), isFever := Some (res_isFever r),
                       hasDataQualityIssue := Some (res_hasDataQualityIssue r)\<rparr>;
               s1 = (if score r \<ge> 4
                     then s\<lparr>highRiskPatientIds := highRiskPatientIds s @ [patient_id p]\<rparr>
                     else s);
               s2 = (if res_isFever r
                     then s1\<lparr>feverPatientIds := feverPatientIds s1 @ [patient_id p]\<rparr>
                     else s1);
               s3 = (if res_hasDataQualityIssue r
                     then s2\<lparr>dataQualityIssueIds := dataQualityIssueIds s2 @ [patient_id p]\<rparr>
                     else s2)
           in Inr (p', s3)))"

fun score_patients :: "patient list \<Rightarrow> orch \<Rightarrow> error + (patient list \<times> orch)" where
  "score_patients [] s = Inr ([], s)"
| "score_patients (p # ps) s =
     (case score_patient p s of
        Inl e \<Rightarrow> Inl e
      | Inr (p', s') \<Rightarrow>
          (case score_patients ps s' of
             Inl e \<Rightarrow> Inl e
           | Inr (ps', s'') \<Rightarrow> Inr (p' # ps', s'')))"

text \<open>The same loop as it is written a second time, in the retry pass.\<close>

definition score_patient_retry :: "patient \<Rightarrow> orch \<Rightarrow> error + (patient \<times> orch)" where
  "score_patient_retry p s =
     (case calculateRiskScore p of
        Inl e \<Rightarrow> Inl e
      | Inr r \<Rightarrow>
          (let p' = p\<lparr>riskScore := Some (score r), isFever := Some (res_isFever r),
                       hasDataQualityIssue := Some (res_hasDataQualityIssue r)\<rparr>;
               s1 = (if score r \<ge> 4
                     then s\<lparr>highRiskPatientIds := highRiskPatientIds s @ [patient_id p]\<rparr>
                     else s);
               s2 = (if res_isFever r
                     then s1\<lparr>feverPatientIds := feverPatientIds s1 @ [patient_id p]\<rparr>
                     else s1);
               s3 = (if res_hasDataQualityIssue r
                     then s2\<lparr>dataQualityIssueIds := dataQualityIssueIds s2 @ [patient_id p]\<rparr>
                     else s2)
           in Inr (p', s3)))"

fun score_patients_retry :: "patient list \<Rightarrow> orch \<Rightarrow> error + (patient list \<times> orch)" where
  "score_patients_retry [] s = Inr ([], s)"
| "score_patients_retry (p # ps) s =
     (case score_patient_retry p s of
        Inl e \<Rightarrow> Inl e
      | Inr (p', s') \<Rightarrow>
          (case score_patients_retry ps s' of
             Inl e \<Rightarrow> Inl e
           | Inr (ps', s'') \<Rightarrow> Inr (p' # ps', s'')))"

text \<open>\<open>if (pagination?.total) expectedTotal = pagination.total\<close>\<close>

definition update_expectedTotal :: "pagination option \<Rightarrow> orch \<Rightarrow> orch" where
  "update_expectedTotal pg s =
     (case pg of
        None \<Rightarrow> s
      | Some g \<Rightarrow>
          (case pg_total g of
             None \<Rightarrow> s
           | Some t \<Rightarrow> if t \<noteq> 0 then s\<lparr>expectedTotal := Some t\<rparr> else s))"

text \<open>
  \<open>pagination && typeof pagination.hasNext === 'boolean' ? pagination.hasNext : false\<close>
\<close>

definition next_flag :: "pagination option \<Rightarrow> bool" where
  "next_flag pg =
     (case pg of
        None \<Rightarrow> False
      | Some g \<Rightarrow> (case pg_hasNext g of JBool b \<Rightarrow> b | _ \<Rightarrow> False))"

text \<open>One turn of the main loop.\<close>

definition main_step :: "service \<Rightarrow> orch \<times> world \<Rightarrow> error + (orch \<times> world)" where
  "main_step srv sw =
     (let s = fst sw;
          w1 = sleep 300 (snd sw);
          (r, w2) = fetchPatientsPage srv (page s) limit w1;
          s1 = update_expectedTotal (pagination r) s
      in if patients r = [] then
           Inr (s1\<lparr>failedPages := failedPages s1 @ [page s1], page := page s1 + 1\<rparr>,
                emit [WarnNoPatients (page s1)] w2)
         else
           (case score_patients (patients r) s1 of
              Inl e \<Rightarrow> Inl e
            | Inr (ps, s2) \<Rightarrow>
                Inr (s2\<lparr>allPatients := allPatients s2 @ ps,
                        hasNext := next_flag (pagination r),
                        page := page s2 + 1\<rparr>,
                     sleep 200 w2)))"

text \<open>
  The main loop, for at most \<open>n\<close> turns: \<open>None\<close> when \<open>hasNext\<close> is still true after
  them. The service decides whether the loop ever ends.
\<close>

fun main_loop :: "nat \<Rightarrow> service \<Rightarrow> orch \<times> world \<Rightarrow> (error + (orch \<times> world)) option" where
  "main_loop 0 srv sw = (if hasNext (fst sw) then None else Some (Inr sw))"
| "main_loop (Suc n) srv sw =
     (if hasNext (fst sw) then
        (case main_step srv sw of
           Inl e \<Rightarrow> Some (Inl e)
         | Inr sw' \<Rightarrow> main_loop n srv sw')
      else Some (Inr sw))"

text \<open>The body of the retry pass for one page, and the pass over a list of pages.\<close>

definition retry_page :: "service \<Rightarrow> nat \<Rightarrow> orch \<times> world \<Rightarrow> error + (orch \<times> world)" where
  "retry_page srv failedPage sw =
     (let s = fst sw;
          w1 = sleep 500 (snd sw);
          (r, w2) = fetchPatientsPage srv failedPage limit w1
      in if patients r \<noteq> [] then
           (case score_patients_retry (patients r) s of
              Inl e \<Rightarrow> Inl e
            | Inr (ps, s2) \<Rightarrow> Inr (s2\<lparr>allPatients := allPatients s2 @ ps\<rparr>, w2))
         else Inr (s, emit [WarnFinalFailure failedPage] w2))"

fun retry_pass :: "service \<Rightarrow> nat list \<Rightarrow> orch \<times> world \<Rightarrow> error + (orch \<times> world)" where
  "retry_pass srv [] sw = Inr sw"
| "retry_pass srv (failedPage # rest) sw =
     (case retry_page srv failedPage sw of
        Inl e \<Rightarrow> Inl e
      | Inr sw' \<Rightarrow> retry_pass srv rest sw')"

text \<open>\<open>[...new Set(xs)]\<close>: the elements of \<open>xs\<close> in the order of their first occurrence.\<close>

definition set_spread :: "string list \<Rightarrow> string list" where
  "set_spread xs = foldl (\<lambda>acc x. if x \<in> set acc then acc else acc @ [x]) [] xs"

definition final_payload :: "orch \<Rightarrow> payload" where
  "final_payload s =
     \<lparr>high_risk_patients = set_spread (highRiskPatientIds s),
      fever_patients = set_spread (feverPatientIds s),
      data_quality_issues = set_spread (dataQualityIssueIds s)\<rparr>"

definition submitAssessment :: "service \<Rightarrow> payload \<Rightarrow> world \<Rightarrow> world" where
  "submitAssessment srv pl w =
     emit [Post pl, if post_succeeds srv pl then LogSubmitted else ErrorSubmit] w"

definition initial :: orch where
  "initial =
     \<lparr>allPatients = [], page = 1, hasNext = True, failedPages = [], expectedTotal = None,
      highRiskPatientIds = [], feverPatientIds = [], dataQualityIssueIds = []\<rparr>"

text \<open>The warning after the retries, when fewer patients than announced were retrieved.\<close>

definition shortfall :: "orch \<Rightarrow> world \<Rightarrow> world" where
  "shortfall s w =
     (case expectedTotal s of
        None \<Rightarrow> w
      | Some t \<Rightarrow>
          if length (allPatients s) < t then emit [WarnShortfall t (length (allPatients s))] w
          else w)"

text \<open>
  \<open>fetchAllPatients\<close> with at most \<open>n\<close> turns of the main loop. The result is the
  payload handed to \<open>submitAssessment\<close> and the world after the submission.
\<close>

definition fetchAllPatients :: "nat \<Rightarrow> service \<Rightarrow> world \<Rightarrow> (error + (payload \<times> world)) option" where
  "fetchAllPatients n srv w =
     (case main_loop n srv (initial, emit [LogStarted] (w\<lparr>isFetching := True\<rparr>)) of
        None \<Rightarrow> None
      | Some (Inl e) \<Rightarrow> Some (Inl e)
      | Some (Inr (s, w1)) \<Rightarrow>
          (case retry_pass srv (failedPages s) (s, w1) of
             Inl e \<Rightarrow> Some (Inl e)
           | Inr (s2, w2) \<Rightarrow>
               (let w3 = emit [LogCompleted] ((shortfall s2 w2)\<lparr>isFetching := False\<rparr>)
                in Some (Inr (final_payload s2, submitAssessment srv (final_payload s2) w3)))))"

section \<open>The rules as the specification words them\<close>

text \<open>The ordered blood-pressure thresholds of the specification, first match wins.\<close>

definition spec_bp_subscore :: "rat \<Rightarrow> rat \<Rightarrow> nat" where
  "spec_bp_subscore systolic diastolic =
     (if systolic \<ge> 140 \<or> diastolic \<ge> 90 then 3
      else if (130 \<le> systolic \<and> systolic \<le> 139) \<or> (80 \<le> diastolic \<and> diastolic \<le> 89) then 2
      else if (120 \<le> systolic \<and> systolic \<le> 129) \<and> diastolic < 80 then 1
      else 0)"

text \<open>
  What one failed attempt with a transient status leaves in the trace: the request, the
  warning and the pause, for attempt \<open>i\<close> counted from 0 and the status \<open>st i\<close> it met.
\<close>

definition retry_events :: "nat \<Rightarrow> nat \<Rightarrow> (nat \<Rightarrow> nat option) \<Rightarrow> nat \<Rightarrow> event list" where
  "retry_events pn lm st i =
     [Get pn lm, WarnRetry (i + 1) pn (baseDelay * 2 ^ i) (st i), Sleep (baseDelay * 2 ^ i)]"

text \<open>
  What \<open>calculateRiskScore\<close> returns for a record, component by component, and whether it
  returns at all.
\<close>

definition scores :: "patient \<Rightarrow> bool" where
  "scores p = (case calculateRiskScore p of Inl e \<Rightarrow> False | Inr r \<Rightarrow> True)"

definition total_score :: "patient \<Rightarrow> nat" where
  "total_score p = (case calculateRiskScore p of Inl e \<Rightarrow> 0 | Inr r \<Rightarrow> score r)"

definition fever_of :: "patient \<Rightarrow> bool" where
  "fever_of p = (case calculateRiskScore p of Inl e \<Rightarrow> False | Inr r \<Rightarrow> res_isFever r)"

definition issue_of :: "patient \<Rightarrow> bool" where
  "issue_of p =
     (case calculateRiskScore p of Inl e \<Rightarrow> False | Inr r \<Rightarrow> res_hasDataQualityIssue r)"

text \<open>The record with the three annotations written into it.\<close>

definition annotated :: "patient \<Rightarrow> patient" where
  "annotated p =
     p\<lparr>riskScore := Some (total_score p), isFever := Some (fever_of p),
       hasDataQualityIssue := Some (issue_of p)\<rparr>"

text \<open>
  What scoring a page and folding it in means for the variables of \<open>fetchAllPatients\<close>:
  the identifiers of its records go onto the lists they belong to, in the order of the page,
  and the annotated records onto \<open>allPatients\<close>.
\<close>

definition routed :: "patient list \<Rightarrow> orch \<Rightarrow> orch" where
  "routed ps s =
     s\<lparr>highRiskPatientIds :=
         highRiskPatientIds s @ map patient_id (filter (\<lambda>p. 4 \<le> total_score p) ps),
       feverPatientIds := feverPatientIds s @ map patient_id (filter fever_of ps),
       dataQualityIssueIds := dataQualityIssueIds s @ map patient_id (filter issue_of ps)\<rparr>"

definition folded_in :: "patient list \<Rightarrow> orch \<Rightarrow> orch" where
  "folded_in ps s = (routed ps s)\<lparr>allPatients := allPatients s @ map annotated ps\<rparr>"


text \<open>A service all of whose records can be scored, whatever the request.\<close>

definition sends_scorable :: "service \<Rightarrow> bool" where
  "sends_scorable srv =
     (\<forall>n pn lm b ps. get_response srv n pn lm = Ok (Some b) \<and> body_data b = Some ps \<longrightarrow>
        list_all scores ps)"


section \<open>Sample records and services\<close>

definition sample_patient :: "string \<Rightarrow> patient" where
  "sample_patient i = mk_patient i (JStr (js ''150/95'')) (JStr (js ''101.5'')) (JStr (js ''70''))"

definition world0 :: world where
  "world0 = \<lparr>requests = 0, trace = [], isFetching = False\<rparr>"

definition flaky_service :: service where
  "flaky_service =
     \<lparr>get_response = (\<lambda>n pn lm.
        if n < 5 then Fail (Some 503)
        else Ok (Some \<lparr>body_data = Some [sample_patient ''p1''], body_pagination = None\<rparr>)),
      post_succeeds = (\<lambda>pl. True)\<rparr>"

definition down_service :: service where
  "down_service = \<lparr>get_response = (\<lambda>n pn lm. Fail (Some 429)), post_succeeds = (\<lambda>pl. True)\<rparr>"

definition refusing_service :: "nat option \<Rightarrow> service" where
  "refusing_service st = \<lparr>get_response = (\<lambda>n pn lm. Fail st), post_succeeds = (\<lambda>pl. True)\<rparr>"

definition calm_patient :: "string \<Rightarrow> patient" where
  "calm_patient i = mk_patient i (JStr (js ''110/70'')) (JStr (js ''98.0'')) (JStr (js ''30''))"

definition borderline_patient :: "string \<Rightarrow> patient" where
  "borderline_patient i = mk_patient i (JStr (js ''150/95'')) (JStr (js ''100.0'')) (JStr (js ''30''))"

definition below_patient :: "string \<Rightarrow> patient" where
  "below_patient i = mk_patient i (JStr (js ''150/95'')) (JStr (js ''98.0'')) (JStr (js ''30''))"

definition paged_service :: service where
  "paged_service =
     \<lparr>get_response = (\<lambda>n pn lm.
        if pn = 1 then
          Ok (Some \<lparr>body_data = Some [sample_patient ''p1'', calm_patient ''p2''],
                    body_pagination = Some \<lparr>pg_total = Some 4, pg_hasNext = JBool True\<rparr>\<rparr>)
        else if pn = 2 then
          (if n < 2 then Ok (Some \<lparr>body_data = Some [], body_pagination = None\<rparr>)
           else Ok (Some \<lparr>body_data = Some [sample_patient ''p1''],
                         body_pagination = Some \<lparr>pg_total = Some 4, pg_hasNext = JBool True\<rparr>\<rparr>))
        else if pn = 3 then
          Ok (Some \<lparr>body_data = Some [sample_patient ''p3''],
                    body_pagination = Some \<lparr>pg_total = Some 4, pg_hasNext = JUndefined\<rparr>\<rparr>)
        else Fail (Some 404)),
      post_succeeds = (\<lambda>pl. True)\<rparr>"

text \<open>A record whose temperature is an object with a property \<open>toString\<close>, and a service
  that sends it.\<close>

definition faulty_patient :: "string \<Rightarrow> patient" where
  "faulty_patient i =
     mk_patient i (JStr (js ''120/80'')) (JObj [(js ''toString'', JNull)]) (JStr (js ''30''))"

definition faulty_service :: service where
  "faulty_service =
     \<lparr>get_response = (\<lambda>n pn lm.
        Ok (Some \<lparr>body_data = Some [calm_patient ''p1'', faulty_patient ''p2''],
                  body_pagination = Some \<lparr>pg_total = Some 2, pg_hasNext = JBool False\<rparr>\<rparr>)),
      post_succeeds = (\<lambda>pl. True)\<rparr>"

section \<open>Facts about numbers and strings\<close>

lemma bit_length_0: "n \<le> 0 \<Longrightarrow> bit_length n = 0"
  by (simp add: bit_length.simps)

lemma bit_length_rec: "0 < n \<Longrightarrow> bit_length n = 1 + bit_length (n div 2)"
  by (simp add: bit_length.simps [of n])

lemma floor_rat_numeral: "\<lfloor>numeral a / numeral b :: rat\<rfloor> = numeral a div numeral b"
  by (metis floor_divide_of_int_eq of_int_numeral)

lemma ceiling_rat_numeral: "\<lceil>numeral a / numeral b :: rat\<rceil> = - (- numeral a div numeral b)"
  using ceiling_divide_eq_div [of "numeral a" "numeral b"] by simp

lemmas to_double_eval = to_double_def ilog2_def Let_def bit_length_0 bit_length_rec pow2_def
  round_half_even_def floor_rat_numeral ceiling_rat_numeral

lemma bit_length_pos: "0 < n \<Longrightarrow> 1 \<le> bit_length n"
proof (induction n rule: bit_length.induct)
  case (1 n)
  have "0 \<le> bit_length (n div 2)"
  proof (cases "0 < n div 2")
    case True
    with 1 show ?thesis by simp
  next
    case False
    then show ?thesis by (simp add: bit_length_0)
  qed
  with 1 show ?case by (simp add: bit_length_rec)
qed

lemma bit_length_le: "0 \<le> k \<Longrightarrow> n < 2 ^ nat k \<Longrightarrow> bit_length n \<le> k"
proof (induction n arbitrary: k rule: bit_length.induct)
  case (1 n)
  show ?case
  proof (cases "n \<le> 0")
    case True
    with 1 show ?thesis by (simp add: bit_length_0)
  next
    case False
    then have "n \<ge> 1" by simp
    have kpos: "k \<ge> 1"
    proof (rule ccontr)
      assume "\<not> k \<ge> 1"
      with 1(2) have "k = 0" by simp
      with 1(3) \<open>n \<ge> 1\<close> show False by simp
    qed
    then have "(2::int) ^ nat k = 2 * 2 ^ nat (k - 1)"
      by (metis Suc_nat_eq_nat_zadd1 diff_ge_0_iff_ge diff_add_cancel add.commute power_Suc)
    with 1(3) have "n div 2 < 2 ^ nat (k - 1)" by simp
    with 1(1) [of "k - 1"] False kpos have "bit_length (n div 2) \<le> k - 1" by simp
    with False show ?thesis by (simp add: bit_length_rec)
  qed
qed

lemma round_half_even_int: "round_half_even (of_int m) = m"
  by (simp add: round_half_even_def)

lemma ilog2_int_bounds:
  assumes "1 \<le> n" "n < 2 ^ 53"
  shows "0 \<le> ilog2 (of_int n) \<and> ilog2 (of_int n) \<le> 52"
proof -
  have lo: "1 \<le> bit_length n" using assms by (simp add: bit_length_pos)
  have hi: "bit_length n \<le> 53" using assms bit_length_le [of 53 n] by simp
  have "(1::rat) \<le> of_int n" using assms by simp
  then show ?thesis using lo hi by (simp add: ilog2_def)
qed

lemma to_double_pos_int:
  assumes "1 \<le> n" "n < 2 ^ 53"
  shows "to_double (of_int n) = Fin (of_int n)"
proof -
  define e where "e = ilog2 (of_int n)"
  have e: "0 \<le> e" "e \<le> 52" using ilog2_int_bounds [OF assms] by (simp_all add: e_def)
  define k where "k = nat (52 - e)"
  have ulp: "pow2 (e - 52) = 1 / 2 ^ k"
    using e by (auto simp: pow2_def k_def)
  have "of_int n / pow2 (e - 52) = (of_int (n * 2 ^ k) :: rat)"
    by (simp add: ulp)
  then have r: "round_half_even (of_int n / pow2 (e - 52)) = n * 2 ^ k"
    by (simp only: round_half_even_int)
  have v: "of_int (n * 2 ^ k) * pow2 (e - 52) = (of_int n :: rat)"
    by (simp add: ulp)
  have small: "\<not> pow2 1024 \<le> (of_int n :: rat)"
  proof -
    have "(of_int n :: rat) < of_int (2 ^ 53)" using assms(2) by (simp only: of_int_less_iff)
    also have "\<dots> \<le> pow2 1024" by (simp add: pow2_def)
    finally show ?thesis by simp
  qed
  have abs: "\<bar>of_int n :: rat\<bar> = of_int n" using assms by simp
  have m: "max e (- 1022) = e" using e by simp
  have nz: "(of_int n :: rat) \<noteq> 0" "\<not> (of_int n :: rat) < 0" using assms by simp_all
  show ?thesis
    unfolding to_double_def Let_def abs e_def [symmetric] m r v
    using nz small by simp
qed

text \<open>Every integer of magnitude below \<open>2\<^sup>5\<^sup>3\<close> is a Number.\<close>

lemma to_double_int:
  assumes "\<bar>n\<bar> < 2 ^ 53"
  shows "to_double (of_int n) = Fin (of_int n)"
proof (cases "n = 0")
  case True
  then show ?thesis by (simp add: to_double_def)
next
  case False
  define m where "m = \<bar>n\<bar>"
  have m: "1 \<le> m" "m < 2 ^ 53" using False assms by (simp_all add: m_def)
  have pos: "to_double (of_int m) = Fin (of_int m)" by (rule to_double_pos_int [OF m])
  show ?thesis
  proof (cases "0 < n")
    case True
    then show ?thesis using pos by (simp add: m_def)
  next
    case neg: False
    then have n: "n = - m" "(of_int m :: rat) > 0" using False m by (simp_all add: m_def)
    have a: "\<bar>- of_int m :: rat\<bar> = \<bar>of_int m\<bar>" by simp
    show ?thesis using pos n(2)
      unfolding n(1) to_double_def Let_def of_int_minus a
      by (auto split: if_splits)
  qed
qed

lemma to_double_numeral:
  "(numeral k :: int) < 2 ^ 53 \<Longrightarrow> to_double (numeral k) = Fin (numeral k)"
  using to_double_int [of "numeral k"] by simp

lemma to_double_neg_numeral:
  "(numeral k :: int) < 2 ^ 53 \<Longrightarrow> to_double (- numeral k) = Fin (- numeral k)"
  using to_double_int [of "- numeral k"] by simp

lemma to_double_0: "to_double 0 = Fin 0"
  by (simp add: to_double_def)

lemma to_double_1: "to_double 1 = Fin 1"
  using to_double_int [of 1] by simp

lemma lit_numeral: "(numeral k :: int) < 2 ^ 53 \<Longrightarrow> lit (numeral k) = Fin (numeral k)"
  by (simp add: lit_def to_double_numeral)

text \<open>The three literals with a fraction: 99.5 is a Number, 99.6 and 100.9 are rounded.\<close>

lemma lit_99_5: "lit (995 / 10) = Fin (199 / 2)"
  by (simp add: lit_def to_double_eval)

lemma lit_99_6: "lit (996 / 10) = Fin (3504363460047667 / 35184372088832)"
  by (simp add: lit_def to_double_eval)

lemma lit_100_9: "lit (1009 / 10) = Fin (3550103143763149 / 35184372088832)"
  by (simp add: lit_def to_double_eval)

lemmas str_eval = js_def trimStart_def trim_def isWhiteSpace_def str_includes_def slash_def
  isDigit_def isHexDigit_def digitValue_def digitsValue_def parseInt_str_def parseFloat_str_def
  strDecimalLiteral_def exponentPart_def pow10_def parseInt_def parseFloat_def nullish_def Let_def
  to_double_numeral to_double_neg_numeral to_double_0 to_double_1

lemma digits10_small: "n < 10 \<Longrightarrow> digits10 n = [48 + nat n]"
  by (simp add: digits10.simps)

lemma digits10_rec: "10 \<le> n \<Longrightarrow> digits10 n = digits10 (n div 10) @ [48 + nat (n mod 10)]"
  by (simp add: digits10.simps [of n])

lemma dec_length_small: "n < 10 \<Longrightarrow> dec_length n = 1"
  by (simp add: dec_length.simps)

lemma dec_length_rec: "10 \<le> n \<Longrightarrow> dec_length n = 1 + dec_length (n div 10)"
  by (simp add: dec_length.simps [of n])

lemma shortest_numeral: "shortest (numeral m) k x =
    (case closest x k of Some c \<Rightarrow> c | None \<Rightarrow> shortest (pred_numeral m) (k + 1) x)"
  by (simp add: numeral_eq_Suc)

lemmas tostring_eval = positive_toString_def shortest_numeral closest_def around_def
  reads_back_def distance_def decimal_exponent_def number_notation_def digits10_small digits10_rec
  dec_length_small dec_length_rec pow10_def

section \<open>Rounding to a Number keeps the order\<close>

lemma pow2_powi: "pow2 e = 2 powi e"
  by (simp add: pow2_def power_int_def field_simps)

lemma bit_length_bounds:
  "0 < n \<Longrightarrow> 2 ^ nat (bit_length n - 1) \<le> n \<and> n < 2 ^ nat (bit_length n)"
proof (induction n rule: bit_length.induct)
  case (1 n)
  show ?case
  proof (cases "n div 2 = 0")
    case True
    with 1(2) have "n = 1" by presburger
    then show ?thesis by (simp add: bit_length_rec bit_length_0)
  next
    case False
    with 1(2) have m: "0 < n div 2" by presburger
    define b where "b = bit_length (n div 2)"
    have b: "1 \<le> b" using bit_length_pos [OF m] by (simp add: b_def)
    from 1(1) m 1(2) have ih: "2 ^ nat (b - 1) \<le> n div 2" "n div 2 < 2 ^ nat b"
      by (simp_all add: b_def)
    have p: "(2::int) ^ nat b = 2 * 2 ^ nat (b - 1)"
      using b by (metis Suc_nat_eq_nat_zadd1 diff_ge_0_iff_ge diff_add_cancel add.commute power_Suc)
    have bl: "bit_length n = 1 + b" using 1(2) by (simp add: bit_length_rec b_def)
    have q: "(2::int) ^ nat (1 + b) = 2 * 2 ^ nat b"
      using b by (simp add: nat_add_distrib)
    from ih have "2 * 2 ^ nat (b - 1) \<le> n" "n < 2 * 2 ^ nat b" by presburger+
    then show ?thesis by (simp add: bl p q)
  qed
qed

lemma ilog2_bounds:
  assumes "0 < a"
  shows "2 powi (ilog2 a) \<le> a \<and> a < 2 powi (ilog2 a + 1)"
proof (cases "1 \<le> a")
  case True
  define n where "n = \<lfloor>a\<rfloor>"
  have n: "1 \<le> n" using True by (simp add: n_def)
  define b where "b = bit_length n"
  have b: "1 \<le> b" using bit_length_pos [of n] n by (simp add: b_def)
  have bb: "2 ^ nat (b - 1) \<le> n" "n < 2 ^ nat b"
    using bit_length_bounds [of n] n by (simp_all add: b_def)
  have il: "ilog2 a = b - 1" using True by (simp add: ilog2_def n_def b_def)
  have "(2::rat) powi (b - 1) = of_int (2 ^ nat (b - 1))"
    using b by (simp add: power_int_def)
  also have "\<dots> \<le> of_int n" using bb(1) by (simp only: of_int_le_iff)
  also have "\<dots> \<le> a" by (simp add: n_def)
  finally have lo: "2 powi (b - 1) \<le> a" .
  have "a < of_int (n + 1)" using floor_correct [of a] by (simp add: n_def)
  also have "\<dots> \<le> of_int (2 ^ nat b)" using bb(2) by (simp only: of_int_le_iff)
  also have "\<dots> = (2::rat) powi b" using b by (simp add: power_int_def)
  finally have hi: "a < 2 powi b" .
  show ?thesis using lo hi by (simp add: il)
next
  case False
  then have a1: "a < 1" by simp
  define m where "m = \<lceil>1 / a\<rceil> - 1"
  have "1 < 1 / a" using assms a1 by simp
  then have "1 < \<lceil>1 / a\<rceil>" by (simp add: less_ceiling_iff)
  then have m: "1 \<le> m" by (simp add: m_def)
  have m1: "of_int m < 1 / a" "1 / a \<le> of_int (m + 1)"
    using ceiling_correct [of "1 / a"] by (simp_all add: m_def)
  define b where "b = bit_length m"
  have b: "1 \<le> b" using bit_length_pos [of m] m by (simp add: b_def)
  have bb: "2 ^ nat (b - 1) \<le> m" "m < 2 ^ nat b"
    using bit_length_bounds [of m] m by (simp_all add: b_def)
  have il: "ilog2 a = - b" using False by (simp add: ilog2_def m_def b_def)
  have "1 / a \<le> of_int (m + 1)" by (rule m1(2))
  also have "\<dots> \<le> of_int (2 ^ nat b)" using bb(2) by (simp only: of_int_le_iff)
  finally have "1 / a \<le> 2 ^ nat b" by simp
  then have "1 \<le> 2 ^ nat b * a" using assms by (simp add: pos_divide_le_eq)
  then have "1 / 2 ^ nat b \<le> a" by (simp add: pos_divide_le_eq mult.commute)
  moreover have "(2::rat) powi (- b) = 1 / 2 ^ nat b"
    using b by (simp add: power_int_def field_simps)
  ultimately have lo: "2 powi (- b) \<le> a" by simp
  have "(of_int (2 ^ nat (b - 1)) :: rat) \<le> of_int m" using bb(1) by (simp only: of_int_le_iff)
  also have "\<dots> < 1 / a" by (rule m1(1))
  finally have "2 ^ nat (b - 1) < 1 / a" by simp
  then have "2 ^ nat (b - 1) * a < 1" using assms by (simp add: pos_less_divide_eq)
  then have "a < 1 / 2 ^ nat (b - 1)" by (simp add: pos_less_divide_eq mult.commute)
  moreover have "(2::rat) powi (- b + 1) = 1 / 2 ^ nat (b - 1)"
  proof (cases "b = 1")
    case True
    then show ?thesis by simp
  next
    case False
    with b have "- b + 1 < 0" "nat (b - 1) = nat (- (- b + 1))" by simp_all
    then show ?thesis by (simp add: power_int_def field_simps)
  qed
  ultimately have hi: "a < 2 powi (- b + 1)" by simp
  show ?thesis using lo hi by (simp add: il)
qed

lemma round_half_even_bounds: "\<lfloor>x\<rfloor> \<le> round_half_even x \<and> round_half_even x \<le> \<lfloor>x\<rfloor> + 1"
  by (simp add: round_half_even_def Let_def)

lemma round_half_even_mono:
  assumes "x \<le> y"
  shows "round_half_even x \<le> round_half_even y"
proof (cases "\<lfloor>x\<rfloor> = \<lfloor>y\<rfloor>")
  case True
  with assms show ?thesis by (auto simp: round_half_even_def Let_def)
next
  case False
  moreover have "\<lfloor>x\<rfloor> \<le> \<lfloor>y\<rfloor>" using assms by (rule floor_mono)
  ultimately have "\<lfloor>x\<rfloor> + 1 \<le> \<lfloor>y\<rfloor>" by simp
  with round_half_even_bounds [of x] round_half_even_bounds [of y] show ?thesis by linarith
qed

lemma ilog2_mono:
  assumes "0 < a" "a \<le> b"
  shows "ilog2 a \<le> ilog2 b"
proof -
  have "2 powi (ilog2 a) \<le> a" using ilog2_bounds [OF assms(1)] by simp
  also note assms(2)
  also have "b < 2 powi (ilog2 b + 1)" using ilog2_bounds [of b] assms by simp
  finally have "(2::rat) powi (ilog2 a) < 2 powi (ilog2 b + 1)" .
  then have "\<not> (2::rat) powi (ilog2 b + 1) \<le> 2 powi (ilog2 a)" by simp
  then have "\<not> ilog2 b + 1 \<le> ilog2 a"
    using power_int_increasing [of "ilog2 b + 1" "ilog2 a" "2::rat"] by auto
  then show ?thesis by simp
qed

lemma nearest_mono:
  assumes "0 < a" "a \<le> b"
  shows "nearest a \<le> nearest b"
proof -
  define ea where "ea = max (ilog2 a) (- 1022)"
  define eb where "eb = max (ilog2 b) (- 1022)"
  have b: "0 < b" using assms by simp
  have le: "ea \<le> eb" using ilog2_mono [OF assms] by (simp add: ea_def eb_def)
  have na: "nearest a = of_int (round_half_even (a / 2 powi (ea - 52))) * 2 powi (ea - 52)"
    by (simp add: nearest_def Let_def ea_def pow2_powi)
  have nb: "nearest b = of_int (round_half_even (b / 2 powi (eb - 52))) * 2 powi (eb - 52)"
    by (simp add: nearest_def Let_def eb_def pow2_powi)
  show ?thesis
  proof (cases "ea = eb")
    case True
    have "a / 2 powi (eb - 52) \<le> b / 2 powi (eb - 52)"
      using assms(2) by (simp add: divide_right_mono)
    then have "round_half_even (a / 2 powi (eb - 52)) \<le> round_half_even (b / 2 powi (eb - 52))"
      by (rule round_half_even_mono)
    then show ?thesis unfolding na nb True
      by (simp add: mult_right_mono)
  next
    case False
    with le have lt: "ea < eb" by simp
    then have eb: "eb = ilog2 b" by (simp add: ea_def eb_def max_def split: if_splits)
    have ia: "ilog2 a \<le> ea" by (simp add: ea_def)
    have "a < 2 powi (ilog2 a + 1)" using ilog2_bounds [OF assms(1)] by simp
    also have "\<dots> \<le> 2 powi (ea + 1)" using ia by (simp add: power_int_increasing)
    finally have "a / 2 powi (ea - 52) \<le> 2 powi (ea + 1) / 2 powi (ea - 52)"
      by (simp add: divide_right_mono)
    also have "\<dots> = (2::rat) powi (ea + 1 - (ea - 52))"
      by (rule power_int_diff [symmetric]) simp
    also have "\<dots> = (2::rat) powi 53" by simp
    also have "\<dots> = of_int (2 ^ 53)" by simp
    finally have "round_half_even (a / 2 powi (ea - 52)) \<le> round_half_even (of_int (2 ^ 53))"
      by (rule round_half_even_mono)
    then have "round_half_even (a / 2 powi (ea - 52)) \<le> 2 ^ 53"
      by (simp only: round_half_even_int)
    then have "(of_int (round_half_even (a / 2 powi (ea - 52))) :: rat) \<le> of_int (2 ^ 53)"
      by (simp only: of_int_le_iff)
    then have "nearest a \<le> of_int (2 ^ 53) * 2 powi (ea - 52)"
      unfolding na by (simp add: mult_right_mono)
    also have "\<dots> = 2 powi 53 * 2 powi (ea - 52)" by simp
    also have "\<dots> = 2 powi (53 + (ea - 52))" by (rule power_int_add [symmetric]) simp
    also have "\<dots> = 2 powi (ea + 1)" by (simp add: add.commute)
    also have "\<dots> \<le> 2 powi eb" using lt by (simp add: power_int_increasing)
    finally have A: "nearest a \<le> 2 powi eb" .
    have "(2::rat) powi 52 = 2 powi (eb - (eb - 52))" by simp
    also have "\<dots> = 2 powi eb / 2 powi (eb - 52)"
      by (rule power_int_diff) simp
    also have "\<dots> \<le> b / 2 powi (eb - 52)"
      using ilog2_bounds [OF b] by (simp add: eb divide_right_mono)
    finally have "of_int (2 ^ 52) \<le> b / 2 powi (eb - 52)" by simp
    then have "round_half_even (of_int (2 ^ 52)) \<le> round_half_even (b / 2 powi (eb - 52))"
      by (rule round_half_even_mono)
    then have "2 ^ 52 \<le> round_half_even (b / 2 powi (eb - 52))"
      by (simp only: round_half_even_int)
    then have "(of_int (2 ^ 52) :: rat) \<le> of_int (round_half_even (b / 2 powi (eb - 52)))"
      by (simp only: of_int_le_iff)
    then have "of_int (2 ^ 52) * 2 powi (eb - 52) \<le> nearest b"
      unfolding nb by (simp add: mult_right_mono)
    moreover have "of_int (2 ^ 52) * 2 powi (eb - 52) = (2::rat) powi 52 * 2 powi (eb - 52)" by simp
    moreover have "(2::rat) powi 52 * 2 powi (eb - 52) = 2 powi (52 + (eb - 52))"
      by (rule power_int_add [symmetric]) simp
    ultimately have B: "2 powi eb \<le> nearest b" by simp
    from A B show ?thesis by simp
  qed
qed

lemma nearest_nonneg: "0 < a \<Longrightarrow> 0 \<le> nearest a"
proof -
  assume a: "0 < a"
  define u where "u = pow2 (max (ilog2 a) (- 1022) - 52)"
  have u: "0 < u" by (simp add: u_def pow2_powi)
  then have "0 \<le> a / u" using a by simp
  then have "0 \<le> \<lfloor>a / u\<rfloor>" by simp
  with round_half_even_bounds [of "a / u"] have "0 \<le> round_half_even (a / u)" by linarith
  then show ?thesis using u by (simp add: nearest_def Let_def u_def [symmetric])
qed

lemma to_double_pos:
  "0 < q \<Longrightarrow> to_double q = (if pow2 1024 \<le> nearest q then PosInf else Fin (nearest q))"
  by (simp add: to_double_def nearest_def Let_def)

lemma to_double_neg:
  "q < 0 \<Longrightarrow> to_double q = (if pow2 1024 \<le> nearest (- q) then NegInf else Fin (- nearest (- q)))"
  by (simp add: to_double_def nearest_def Let_def abs_if)

text \<open>Rounding to a Number keeps the order.\<close>

lemma to_double_mono:
  assumes "q \<le> r"
  shows "js_le (to_double q) (to_double r)"
proof -
  consider "0 < q" | "r < 0" | "q \<le> 0" "0 \<le> r" using assms by linarith
  then show ?thesis
  proof cases
    case 1
    then have r: "0 < r" using assms by simp
    from nearest_mono [OF 1 assms] show ?thesis
      by (auto simp: to_double_pos 1 r)
  next
    case 2
    then have q: "q < 0" using assms by simp
    from 2 assms have "0 < - r" "- r \<le> - q" by simp_all
    from nearest_mono [OF this] show ?thesis
      by (auto simp: to_double_neg 2 q)
  next
    case 3
    have a: "to_double q = NegInf \<or> (\<exists>v. to_double q = Fin v \<and> v \<le> 0)"
    proof (cases "q = 0")
      case True
      then show ?thesis by (simp add: to_double_0)
    next
      case False
      with 3 have "q < 0" by simp
      then show ?thesis using nearest_nonneg [of "- q"] by (simp add: to_double_neg)
    qed
    have b: "to_double r = PosInf \<or> (\<exists>v. to_double r = Fin v \<and> 0 \<le> v)"
    proof (cases "r = 0")
      case True
      then show ?thesis by (simp add: to_double_0)
    next
      case False
      with 3 have "0 < r" by simp
      then show ?thesis using nearest_nonneg [of r] by (simp add: to_double_pos)
    qed
    from a b show ?thesis by auto
  qed
qed

lemma to_double_not_NaN: "to_double q \<noteq> NaN"
  by (simp add: to_double_def Let_def)

section \<open>Facts about the string of a Number\<close>

lemma digits10_digits: "0 \<le> n \<Longrightarrow> digits10 n \<noteq> [] \<and> (\<forall>c\<in>set (digits10 n). isDigit c)"
proof (induction n rule: digits10.induct)
  case (1 n)
  show ?case
  proof (cases "n < 10")
    case True
    with 1(2) have "nat n \<le> 9" by simp
    with True show ?thesis by (simp add: digits10_small isDigit_def)
  next
    case False
    then have ge: "10 \<le> n" by simp
    then have "0 \<le> n div 10" by simp
    with 1(1) False have ih: "\<forall>c\<in>set (digits10 (n div 10)). isDigit c" by simp
    have "nat (n mod 10) \<le> 9" by simp
    with ih show ?thesis by (simp add: digits10_rec [OF ge] isDigit_def)
  qed
qed

lemma pow10_pos: "0 < pow10 e"
  by (simp add: pow10_def)

lemma closest_reads_back:
  assumes "closest x k = Some c"
  shows "reads_back x k c"
proof -
  define fs where "fs = filter (reads_back x k) (around x k)"
  have "c \<in> set fs"
    using assms unfolding closest_def fs_def [symmetric]
    by (cases fs) (auto split: list.splits if_splits)
  then show ?thesis by (simp add: fs_def)
qed

lemma shortest_nonneg: "0 < x \<Longrightarrow> 0 \<le> fst (shortest m k x)"
proof (induction m arbitrary: k)
  case 0
  have "0 \<le> x / pow10 (decimal_exponent x - k)"
    using 0 pow10_pos [of "decimal_exponent x - k"] by simp
  then show ?case by (simp add: around_def Let_def)
next
  case (Suc m)
  show ?case
  proof (cases "closest x k")
    case None
    with Suc show ?thesis by simp
  next
    case (Some c)
    have "(0::int) < 10 ^ nat (k - 1)" by simp
    also have "\<dots> \<le> fst c" using closest_reads_back [OF Some] by (simp add: reads_back_def)
    finally show ?thesis using Some by simp
  qed
qed

text \<open>
  The string of a non-zero finite Number starts with a digit, after the sign if there is
  one, and holds only digits, a point, the letter \<open>e\<close> and signs.
\<close>

lemma number_notation_shape:
  assumes "d \<noteq> []" "\<forall>c\<in>set d. isDigit c"
  shows "\<exists>c cs. number_notation d n = c # cs \<and> isDigit c \<and> (\<forall>c\<in>set cs. c \<noteq> 120 \<and> c \<noteq> 88)"
proof -
  obtain a ds where d: "d = a # ds" using assms(1) by (cases d) auto
  have a: "isDigit a" and ds: "\<forall>c\<in>set ds. isDigit c" using assms(2) d by simp_all
  have x: "\<not> isDigit 120" "\<not> isDigit 88" by (simp_all add: isDigit_def)
  have e: "120 \<notin> set (digits10 m)" "88 \<notin> set (digits10 m)" if "0 \<le> m" for m
    using digits10_digits [OF that] x by auto
  have nx: "120 \<notin> set ds" "88 \<notin> set ds" using ds x by auto
  have t: "120 \<notin> set (take m ds)" "88 \<notin> set (take m ds)" for m
    using nx by (auto dest: in_set_takeD)
  have dr: "120 \<notin> set (drop m ds)" "88 \<notin> set (drop m ds)" for m
    using nx by (auto dest: in_set_dropD)
  have z: "isDigit 48" by (simp add: isDigit_def)
  show ?thesis
    unfolding number_notation_def Let_def d
    using a z x by (auto simp: take_Cons' drop_Cons' e nx t dr)
qed

lemma parse_digit_start:
  assumes "isDigit c" "\<forall>c\<in>set cs. c \<noteq> 120 \<and> c \<noteq> 88"
  shows "parseInt_str (c # cs) \<noteq> NaN" "parseInt_str (45 # c # cs) \<noteq> NaN"
    "parseFloat_str (c # cs) \<noteq> NaN" "parseFloat_str (45 # c # cs) \<noteq> NaN"
proof -
  have w: "\<not> isWhiteSpace c" "c \<noteq> 45" "c \<noteq> 43" "c \<noteq> 73"
    using assms(1) by (auto simp: isDigit_def isWhiteSpace_def)
  have m: "\<not> isWhiteSpace 45" by (simp add: isWhiteSpace_def)
  have h: "take 2 (c # cs) \<noteq> [48, 120]" "take 2 (c # cs) \<noteq> [48, 88]"
    using assms(2) by (cases cs; simp)+
  have i: "take 8 (c # cs) \<noteq> js ''Infinity''"
    using w(4) by (simp add: js_def)
  have s: "takeSign (trimStart (c # cs)) = (False, c # cs)"
    "takeSign (trimStart (45 # c # cs)) = (True, c # cs)"
    using w m by (simp_all add: trimStart_def)
  show "parseInt_str (c # cs) \<noteq> NaN" "parseInt_str (45 # c # cs) \<noteq> NaN"
    unfolding parseInt_str_def s using h assms(1) by (auto simp: Let_def to_double_not_NaN)
  show "parseFloat_str (c # cs) \<noteq> NaN" "parseFloat_str (45 # c # cs) \<noteq> NaN"
    unfolding parseFloat_str_def strDecimalLiteral_def s using i assms(1)
    by (simp_all add: Let_def to_double_not_NaN)
qed

lemma positive_toString_shape:
  assumes "0 < x"
  shows "\<exists>c cs. positive_toString x = c # cs \<and> isDigit c \<and> (\<forall>c\<in>set cs. c \<noteq> 120 \<and> c \<noteq> 88)"
proof -
  obtain s n where sn: "shortest 17 1 x = (s, n)" by (cases "shortest 17 1 x") auto
  have "0 \<le> s" using shortest_nonneg [OF assms, of 17 1] by (simp add: sn)
  then have "digits10 s \<noteq> []" "\<forall>c\<in>set (digits10 s). isDigit c"
    using digits10_digits by simp_all
  from number_notation_shape [OF this] show ?thesis
    by (simp add: positive_toString_def sn)
qed

text \<open>A finite Number, turned into a string and parsed, is never NaN.\<close>

lemma parse_Number_toString:
  "parseInt_str (Number_toString (Fin x)) \<noteq> NaN"
  "parseFloat_str (Number_toString (Fin x)) \<noteq> NaN"
proof -
  have "parseInt_str (Number_toString (Fin x)) \<noteq> NaN \<and>
        parseFloat_str (Number_toString (Fin x)) \<noteq> NaN"
  proof (cases "x = 0")
    case True
    have "isDigit 48" by (simp add: isDigit_def)
    from parse_digit_start(1,3) [OF this, of "[]"] True show ?thesis by (simp add: js_def)
  next
    case False
    show ?thesis
    proof (cases "x < 0")
      case True
      then have "0 < - x" by simp
      from positive_toString_shape [OF this] obtain c cs
        where "positive_toString (- x) = c # cs" "isDigit c" "\<forall>c\<in>set cs. c \<noteq> 120 \<and> c \<noteq> 88"
        by auto
      with parse_digit_start(2,4) [of c cs] True show ?thesis by simp
    next
      case nn: False
      with False have "0 < x" by simp
      from positive_toString_shape [OF this] obtain c cs
        where "positive_toString x = c # cs" "isDigit c" "\<forall>c\<in>set cs. c \<noteq> 120 \<and> c \<noteq> 88"
        by auto
      with parse_digit_start(1,3) [of c cs] False nn show ?thesis by simp
    qed
  qed
  then show "parseInt_str (Number_toString (Fin x)) \<noteq> NaN"
    "parseFloat_str (Number_toString (Fin x)) \<noteq> NaN" by simp_all
qed

lemma lit_99_5': "lit (199 / 2) = Fin (199 / 2)"
  using lit_99_5 by simp

lemma lit_99_6': "lit (498 / 5) = Fin (3504363460047667 / 35184372088832)"
  using lit_99_6 by simp

lemmas lit_eval = lit_numeral lit_99_5 lit_99_5' lit_99_6 lit_99_6' lit_100_9

section \<open>The scorer: blood pressure\<close>

lemma split_no_sep: "sep \<notin> set s \<Longrightarrow> str_split s sep = [s]"
  by (induction s) auto

lemma split_two: "sep \<in> set s \<Longrightarrow> \<exists>a b rest. str_split s sep = a # b # rest"
proof (induction s)
  case Nil
  then show ?case by simp
next
  case (Cons c cs)
  show ?case
  proof (cases "c = sep")
    case True
    then show ?thesis by (cases cs) (auto split: list.splits)
  next
    case False
    with Cons obtain a b rest where "str_split cs sep = a # b # rest" by auto
    with False show ?thesis by simp
  qed
qed

lemma element_1_includes:
  assumes "element (str_split bp sep) 1 = Some b"
  shows "str_includes bp sep"
proof (rule ccontr)
  assume "\<not> str_includes bp sep"
  then have "str_split bp sep = [bp]" by (simp add: str_includes_def split_no_sep)
  with assms show False by simp
qed

lemma bp_thresholds_spec: "bp_thresholds (Fin s) (Fin d) = spec_bp_subscore s d"
  by (simp add: bp_thresholds_def spec_bp_subscore_def js_ge_def lit_numeral) auto

lemma bp_block_valid:
  assumes "blood_pressure p = JStr bp"
    and "element (str_split bp slash) 0 = Some a"
    and "element (str_split bp slash) 1 = Some b"
    and "parseInt (JStr (trim a)) = Inr (Fin s)"
    and "parseInt (JStr (trim b)) = Inr (Fin d)"
  shows "bp_block p = Inr (spec_bp_subscore s d, False)"
  using assms element_1_includes [OF assms(3)]
  by (simp add: bp_block_def trim_of_def isInvalidNumber_def isNaN_def bp_thresholds_spec)

lemma calculateRiskScore_blocks:
  assumes "bp_block p = Inr (b, bi)"
  shows "calculateRiskScore p =
    (case temp_block p of
       Inl e \<Rightarrow> Inl e
     | Inr (t, f, ti) \<Rightarrow>
         (case age_block p of
            Inl e \<Rightarrow> Inl e
          | Inr (g, gi) \<Rightarrow>
              Inr \<lparr>score = b + t + g, res_isFever = f,
                   res_hasDataQualityIssue = (bi \<or> ti \<or> gi)\<rparr>))"
  using assms by (simp add: calculateRiskScore_def split: sum.splits prod.splits)

lemma bp_block_135_85: "bp_block (mk_patient i (JStr (js ''135/85'')) t a) = Inr (2, False)"
  by (simp add: bp_block_def mk_patient_def trim_of_def isInvalidNumber_def isNaN_def
      bp_thresholds_def js_ge_def lit_numeral str_eval)

lemma bp_block_150_70: "bp_block (mk_patient i (JStr (js ''150/70'')) t a) = Inr (3, False)"
  by (simp add: bp_block_def mk_patient_def trim_of_def isInvalidNumber_def isNaN_def
      bp_thresholds_def js_ge_def lit_numeral str_eval)

text \<open>
  C1. For every blood-pressure string whose first two parts around \<open>/\<close>, trimmed, parse
  to finite integers \<open>s\<close> and \<open>d\<close>, the blood-pressure sub-score of the scorer is the one
  the ordered threshold rules give, the severe rule first (3 if \<open>s \<ge> 140\<close> or \<open>d \<ge> 90\<close>,
  else 2 if \<open>s\<close> is in 130..139 or \<open>d\<close> in 80..89, else 1 if \<open>s\<close> is in 120..129 and
  \<open>d < 80\<close>, else 0), the block raises no quality issue, and the scorer returns what the two
  other blocks give with that sub-score added to theirs. In particular \<open>135/85\<close> gives 2 and
  \<open>150/70\<close> gives 3.
\<close>

theorem bp_subscore_ordered_thresholds:
  "(\<forall>p bp a b s d.
      blood_pressure p = JStr bp \<and>
      element (str_split bp slash) 0 = Some a \<and> element (str_split bp slash) 1 = Some b \<and>
      parseInt (JStr (trim a)) = Inr (Fin s) \<and> parseInt (JStr (trim b)) = Inr (Fin d) \<longrightarrow>
      bp_block p = Inr (spec_bp_subscore s d, False) \<and>
      calculateRiskScore p =
        (case temp_block p of
           Inl e \<Rightarrow> Inl e
         | Inr (t, f, ti) \<Rightarrow>
             (case age_block p of
                Inl e \<Rightarrow> Inl e
              | Inr (g, gi) \<Rightarrow>
                  Inr \<lparr>score = spec_bp_subscore s d + t + g, res_isFever = f,
                       res_hasDataQualityIssue = (ti \<or> gi)\<rparr>)))
   \<and> bp_block (mk_patient i (JStr (js ''135/85'')) t a) = Inr (2, False)
   \<and> bp_block (mk_patient i (JStr (js ''150/70'')) t a) = Inr (3, False)"
proof (intro conjI allI impI)
  fix p :: patient and bp a b s d
  assume h: "blood_pressure p = JStr bp \<and>
      element (str_split bp slash) 0 = Some a \<and> element (str_split bp slash) 1 = Some b \<and>
      parseInt (JStr (trim a)) = Inr (Fin s) \<and> parseInt (JStr (trim b)) = Inr (Fin d)"
  then show blk: "bp_block p = Inr (spec_bp_subscore s d, False)"
    by (simp add: bp_block_valid)
  show "calculateRiskScore p =
        (case temp_block p of
           Inl e \<Rightarrow> Inl e
         | Inr (t, f, ti) \<Rightarrow>
             (case age_block p of
                Inl e \<Rightarrow> Inl e
              | Inr (g, gi) \<Rightarrow>
                  Inr \<lparr>score = spec_bp_subscore s d + t + g, res_isFever = f,
                       res_hasDataQualityIssue = (ti \<or> gi)\<rparr>))"
    by (simp add: calculateRiskScore_blocks [OF blk] split: sum.splits prod.splits)
next
  show "bp_block (mk_patient i (JStr (js ''135/85'')) t a) = Inr (2, False)"
    by (rule bp_block_135_85)
next
  show "bp_block (mk_patient i (JStr (js ''150/70'')) t a) = Inr (3, False)"
    by (rule bp_block_150_70)
qed

text \<open>The blood pressure \<open>125 / 79\<close>, in a record with a temperature of 100.0 and an age of 50.\<close>

theorem bp_subscore_ordered_thresholds_witness:
  "blood_pressure (mk_patient ''p1'' (JStr (js ''125 / 79'')) (JStr (js ''100.0'')) (JStr (js ''50'')))
     = JStr (js ''125 / 79'') \<and>
   element (str_split (js ''125 / 79'') slash) 0 = Some (js ''125 '') \<and>
   element (str_split (js ''125 / 79'') slash) 1 = Some (js '' 79'') \<and>
   parseInt (JStr (trim (js ''125 ''))) = Inr (Fin 125) \<and>
   parseInt (JStr (trim (js '' 79''))) = Inr (Fin 79) \<and>
   spec_bp_subscore 125 79 = 1 \<and>
   bp_block (mk_patient ''p1'' (JStr (js ''125 / 79'')) (JStr (js ''100.0'')) (JStr (js ''50'')))
     = Inr (1, False) \<and>
   calculateRiskScore (mk_patient ''p1'' (JStr (js ''125 / 79'')) (JStr (js ''100.0'')) (JStr (js ''50'')))
     = Inr \<lparr>score = 3, res_isFever = True, res_hasDataQualityIssue = False\<rparr>"
proof -
  let ?p = "mk_patient ''p1'' (JStr (js ''125 / 79'')) (JStr (js ''100.0'')) (JStr (js ''50''))"
  have h: "blood_pressure ?p = JStr (js ''125 / 79'') \<and>
   element (str_split (js ''125 / 79'') slash) 0 = Some (js ''125 '') \<and>
   element (str_split (js ''125 / 79'') slash) 1 = Some (js '' 79'') \<and>
   parseInt (JStr (trim (js ''125 ''))) = Inr (Fin 125) \<and>
   parseInt (JStr (trim (js '' 79''))) = Inr (Fin 79)"
    by (simp add: mk_patient_def str_eval)
  have v: "spec_bp_subscore 125 79 = 1"
    by (simp add: spec_bp_subscore_def)
  have t: "temp_block ?p = Inr (1, True, False)"
    by (simp add: temp_block_def temp_rule_def mk_patient_def isInvalidNumber_def isNaN_def
        js_ge_def lit_eval str_eval to_double_eval)
  have g: "age_block ?p = Inr (1, False)"
    by (simp add: age_block_def age_rule_def mk_patient_def isInvalidNumber_def isNaN_def
        js_ge_def js_gt_def lit_eval str_eval)
  from bp_subscore_ordered_thresholds [THEN conjunct1, rule_format, OF h]
  have "bp_block ?p = Inr (spec_bp_subscore 125 79, False)"
    and "calculateRiskScore ?p =
      Inr \<lparr>score = spec_bp_subscore 125 79 + 1 + 1, res_isFever = True,
           res_hasDataQualityIssue = False\<rparr>"
    by (simp_all add: t g)
  with h v show ?thesis by simp
qed

section \<open>The two variants of the scorer\<close>

lemma parse_nullish:
  "parseFloat (nullish v (JStr [])) = parseFloat v"
  "parseInt (nullish v (JStr [])) = parseInt v"
  by (simp_all add: nullish_def parseFloat_def parseInt_def parseFloat_str_def parseInt_str_def
      strDecimalLiteral_def js_def trimStart_def isWhiteSpace_def isDigit_def Let_def)

lemma temp_block_part_001_eq: "temp_block_part_001 p = temp_block p"
  by (simp add: temp_block_part_001_def temp_block_def parse_nullish)

lemma age_block_part_001_eq: "age_block_part_001 p = age_block p"
  by (simp add: age_block_part_001_def age_block_def parse_nullish)

lemma bp_block_part_001_valid:
  assumes "blood_pressure p = JStr bp"
    and "element (str_split bp slash) 0 = Some a"
    and "element (str_split bp slash) 1 = Some b"
    and "parseInt (JStr (trim a)) = Inr (Fin s)"
    and "parseInt (JStr (trim b)) = Inr (Fin d)"
  shows "bp_block_part_001 p = Inr (bp_thresholds_part_001 (Fin s) (Fin d), False)"
  using assms element_1_includes [OF assms(3)]
  by (simp add: bp_block_part_001_def trim_of_def isInvalidNumber_def isNaN_def)

lemma calculateRiskScore_part_001_blocks:
  assumes "bp_block_part_001 p = Inr (b, bi)"
  shows "calculateRiskScore_part_001 p =
    (case temp_block p of
       Inl e \<Rightarrow> Inl e
     | Inr (t, f, ti) \<Rightarrow>
         (case age_block p of
            Inl e \<Rightarrow> Inl e
          | Inr (g, gi) \<Rightarrow>
              Inr \<lparr>score = b + t + g, res_isFever = f,
                   res_hasDataQualityIssue = (bi \<or> ti \<or> gi)\<rparr>))"
  using assms
  by (simp add: calculateRiskScore_part_001_def temp_block_part_001_eq age_block_part_001_eq
      split: sum.splits prod.splits)

lemma severe_with_moderate:
  assumes "140 \<le> s" "80 \<le> d" "d \<le> 89"
  shows "spec_bp_subscore s d = 3" "bp_thresholds_part_001 (Fin s) (Fin d) = 2"
  using assms
  by (simp_all add: spec_bp_subscore_def bp_thresholds_part_001_def js_ge_def lit_numeral)

lemma temp_block_ToString:
  "temp_block p =
     (case ToString (nullish (temperature p) (JStr [])) of
        Inl e \<Rightarrow> Inl e
      | Inr s \<Rightarrow> Inr (temp_rule (parseFloat_str s)))"
  by (simp add: temp_block_def parseFloat_def split: sum.splits)

lemma age_block_ToString:
  "age_block p =
     (case ToString (nullish (age p) (JStr [])) of
        Inl e \<Rightarrow> Inl e
      | Inr s \<Rightarrow> Inr (age_rule (parseInt_str s)))"
  by (simp add: age_block_def parseInt_def split: sum.splits)

lemma ToString_nullish:
  "(ToString (nullish v (JStr [])) = Inl e) = (ToString v = Inl e)"
  by (simp add: nullish_def)

lemma error_TypeError: "(e :: error) = TypeError"
  by (cases e) simp

lemma temp_block_throws:
  "(temp_block p = Inl TypeError) = (ToString (temperature p) = Inl TypeError)"
proof -
  have "(temp_block p = Inl TypeError) = (ToString (nullish (temperature p) (JStr [])) = Inl TypeError)"
    by (cases "ToString (nullish (temperature p) (JStr []))")
      (simp_all add: temp_block_ToString error_TypeError)
  then show ?thesis by (simp only: ToString_nullish)
qed

lemma age_block_throws:
  "(age_block p = Inl TypeError) = (ToString (age p) = Inl TypeError)"
proof -
  have "(age_block p = Inl TypeError) = (ToString (nullish (age p) (JStr [])) = Inl TypeError)"
    by (cases "ToString (nullish (age p) (JStr []))")
      (simp_all add: age_block_ToString error_TypeError)
  then show ?thesis by (simp only: ToString_nullish)
qed

lemma block_returns:
  "(\<exists>x. temp_block p = Inr x) = (ToString (temperature p) \<noteq> Inl TypeError)"
  "(\<exists>x. age_block p = Inr x) = (ToString (age p) \<noteq> Inl TypeError)"
proof -
  show "(\<exists>x. temp_block p = Inr x) = (ToString (temperature p) \<noteq> Inl TypeError)"
    unfolding temp_block_throws [symmetric]
    by (cases "temp_block p") (auto simp: error_TypeError)
  show "(\<exists>x. age_block p = Inr x) = (ToString (age p) \<noteq> Inl TypeError)"
    unfolding age_block_throws [symmetric]
    by (cases "age_block p") (auto simp: error_TypeError)
qed

text \<open>
  C2. The scorer of \<open>src/assessment.ts\<close> and the one of \<open>src/unnamed/part_001\<close> are not
  equivalent: on every record whose blood pressure parses to a systolic value of at least 140
  and a diastolic value in 80..89, if the first returns a result then so does the second and
  the total of the first is one more than the total of the second; \<open>150/85\<close> is such a
  record, whatever its other fields, as long as their conversion to a string does not throw.
\<close>

theorem variants_not_equivalent:
  "(\<forall>p bp a b s d r.
      blood_pressure p = JStr bp \<and>
      element (str_split bp slash) 0 = Some a \<and> element (str_split bp slash) 1 = Some b \<and>
      parseInt (JStr (trim a)) = Inr (Fin s) \<and> parseInt (JStr (trim b)) = Inr (Fin d) \<and>
      140 \<le> s \<and> 80 \<le> d \<and> d \<le> 89 \<and> calculateRiskScore p = Inr r \<longrightarrow>
      (\<exists>r'. calculateRiskScore_part_001 p = Inr r' \<and> score r = score r' + 1))
   \<and> (\<forall>i t a. ToString t \<noteq> Inl TypeError \<and> ToString a \<noteq> Inl TypeError \<longrightarrow>
        (\<exists>r r'. calculateRiskScore (mk_patient i (JStr (js ''150/85'')) t a) = Inr r \<and>
          calculateRiskScore_part_001 (mk_patient i (JStr (js ''150/85'')) t a) = Inr r' \<and>
          score r \<noteq> score r'))"
proof -
  have general: "\<exists>r'. calculateRiskScore_part_001 p = Inr r' \<and> score r = score r' + 1"
    if h: "blood_pressure p = JStr bp \<and>
      element (str_split bp slash) 0 = Some a \<and> element (str_split bp slash) 1 = Some b \<and>
      parseInt (JStr (trim a)) = Inr (Fin s) \<and> parseInt (JStr (trim b)) = Inr (Fin d) \<and>
      140 \<le> s \<and> 80 \<le> d \<and> d \<le> 89 \<and> calculateRiskScore p = Inr r"
    for p :: patient and bp a b s d r
  proof -
    have ts: "bp_block p = Inr (3, False)"
      using h bp_block_valid [of p bp a b s d] severe_with_moderate(1) [of s d] by simp
    have v1: "bp_block_part_001 p = Inr (2, False)"
      using h bp_block_part_001_valid [of p bp a b s d] severe_with_moderate(2) [of s d] by simp
    from h have "calculateRiskScore p = Inr r" by simp
    then show ?thesis
      by (auto simp: calculateRiskScore_blocks [OF ts] calculateRiskScore_part_001_blocks [OF v1]
          split: sum.splits prod.splits)
  qed
  have ex: "\<exists>r r'. calculateRiskScore (mk_patient i (JStr (js ''150/85'')) t a) = Inr r \<and>
          calculateRiskScore_part_001 (mk_patient i (JStr (js ''150/85'')) t a) = Inr r' \<and>
          score r \<noteq> score r'"
    if c: "ToString t \<noteq> Inl TypeError \<and> ToString a \<noteq> Inl TypeError" for i t a
  proof -
    let ?p = "mk_patient i (JStr (js ''150/85'')) t a"
    have b: "blood_pressure ?p = JStr (js ''150/85'') \<and>
      element (str_split (js ''150/85'') slash) 0 = Some (js ''150'') \<and>
      element (str_split (js ''150/85'') slash) 1 = Some (js ''85'') \<and>
      parseInt (JStr (trim (js ''150''))) = Inr (Fin 150) \<and>
      parseInt (JStr (trim (js ''85''))) = Inr (Fin 85)"
      by (simp add: mk_patient_def str_eval)
    have ts: "bp_block ?p = Inr (3, False)"
      using b bp_block_valid [of ?p "js ''150/85''" "js ''150''" "js ''85''" 150 85]
      by (simp add: spec_bp_subscore_def)
    have tt: "\<exists>x. temp_block ?p = Inr x"
      using c block_returns(1) [of ?p] by (auto simp: mk_patient_def)
    have ta: "\<exists>x. age_block ?p = Inr x"
      using c block_returns(2) [of ?p] by (auto simp: mk_patient_def)
    from tt ta obtain r where r: "calculateRiskScore ?p = Inr r"
      by (auto simp: calculateRiskScore_blocks [OF ts])
    have "\<exists>r'. calculateRiskScore_part_001 ?p = Inr r' \<and> score r = score r' + 1"
      by (rule general [of ?p "js ''150/85''" "js ''150''" "js ''85''" 150 85 r])
        (use b r in simp)
    with r show ?thesis by auto
  qed
  from general ex show ?thesis by blast
qed

theorem variants_not_equivalent_witness:
  "blood_pressure (mk_patient ''p1'' (JStr (js ''150/85'')) (JStr (js ''98.0'')) (JStr (js ''30'')))
     = JStr (js ''150/85'') \<and>
   element (str_split (js ''150/85'') slash) 0 = Some (js ''150'') \<and>
   element (str_split (js ''150/85'') slash) 1 = Some (js ''85'') \<and>
   parseInt (JStr (trim (js ''150''))) = Inr (Fin 150) \<and>
   parseInt (JStr (trim (js ''85''))) = Inr (Fin 85) \<and>
   (140::rat) \<le> 150 \<and> (80::rat) \<le> 85 \<and> (85::rat) \<le> 89 \<and>
   calculateRiskScore
     (mk_patient ''p1'' (JStr (js ''150/85'')) (JStr (js ''98.0'')) (JStr (js ''30'')))
     = Inr \<lparr>score = 3, res_isFever = False, res_hasDataQualityIssue = False\<rparr> \<and>
   (\<exists>r'. calculateRiskScore_part_001
              (mk_patient ''p1'' (JStr (js ''150/85'')) (JStr (js ''98.0'')) (JStr (js ''30''))) = Inr r' \<and>
           3 = score r' + 1) \<and>
   (\<exists>r r'. calculateRiskScore (mk_patient ''p2'' (JStr (js ''150/85'')) JNull (JBool True)) = Inr r \<and>
           calculateRiskScore_part_001 (mk_patient ''p2'' (JStr (js ''150/85'')) JNull (JBool True))
             = Inr r' \<and>
           score r \<noteq> score r')"
proof -
  let ?p = "mk_patient ''p1'' (JStr (js ''150/85'')) (JStr (js ''98.0'')) (JStr (js ''30''))"
  have r: "calculateRiskScore ?p
     = Inr \<lparr>score = 3, res_isFever = False, res_hasDataQualityIssue = False\<rparr>"
    by (simp add: calculateRiskScore_def bp_block_def temp_block_def age_block_def
        temp_rule_def age_rule_def bp_thresholds_def mk_patient_def trim_of_def
        isInvalidNumber_def isNaN_def js_ge_def js_gt_def lit_eval str_eval to_double_eval)
  have h: "blood_pressure ?p = JStr (js ''150/85'') \<and>
   element (str_split (js ''150/85'') slash) 0 = Some (js ''150'') \<and>
   element (str_split (js ''150/85'') slash) 1 = Some (js ''85'') \<and>
   parseInt (JStr (trim (js ''150''))) = Inr (Fin 150) \<and>
   parseInt (JStr (trim (js ''85''))) = Inr (Fin 85) \<and>
   (140::rat) \<le> 150 \<and> (80::rat) \<le> 85 \<and> (85::rat) \<le> 89 \<and>
   calculateRiskScore ?p
     = Inr \<lparr>score = 3, res_isFever = False, res_hasDataQualityIssue = False\<rparr>"
    using r by (simp add: mk_patient_def str_eval)
  have c: "ToString JNull \<noteq> Inl TypeError \<and> ToString (JBool True) \<noteq> Inl TypeError"
    by simp
  from variants_not_equivalent [THEN conjunct1, rule_format, OF h] h
    variants_not_equivalent [THEN conjunct2, rule_format, OF c, of "''p2''"]
  show ?thesis by simp
qed

section \<open>The scorer: what it returns, and when\<close>

lemma bp_thresholds_le: "bp_thresholds x y \<le> 3"
  by (simp add: bp_thresholds_def)

lemma bp_block_total: "\<exists>b bi. bp_block p = Inr (b, bi) \<and> b \<le> 3"
proof (cases "blood_pressure p")
  case (JStr bp)
  show ?thesis
  proof (cases "str_includes bp slash")
    case True
    then obtain a b rest where "str_split bp slash = a # b # rest"
      using split_two [of slash bp] by (auto simp: str_includes_def)
    with JStr True show ?thesis
      by (auto simp add: bp_block_def trim_of_def parseInt_def Let_def bp_thresholds_le)
  next
    case False
    with JStr show ?thesis by (auto simp add: bp_block_def)
  qed
qed (auto simp add: bp_block_def)

lemma temp_rule_le: "fst (temp_rule x) \<le> 2"
  by (simp add: temp_rule_def)

lemma age_rule_le: "fst (age_rule x) \<le> 2"
  by (simp add: age_rule_def)

lemma temp_block_le: "temp_block p = Inr (t, f, ti) \<Longrightarrow> t \<le> 2"
  using temp_rule_le by (auto simp: temp_block_def split: sum.splits) (metis fst_conv)

lemma age_block_le: "age_block p = Inr (g, gi) \<Longrightarrow> g \<le> 2"
  using age_rule_le by (auto simp: age_block_def split: sum.splits) (metis fst_conv)

lemma bp_block_not_string: "(\<forall>s. blood_pressure p \<noteq> JStr s) \<Longrightarrow> bp_block p = Inr (0, True)"
  by (cases "blood_pressure p") (simp_all add: bp_block_def)

lemma bp_block_no_slash:
  "blood_pressure p = JStr bp \<Longrightarrow> \<not> str_includes bp slash \<Longrightarrow> bp_block p = Inr (0, True)"
  by (simp add: bp_block_def)

lemma bp_block_nan:
  assumes "blood_pressure p = JStr bp"
    and "element (str_split bp slash) 0 = Some a"
    and "element (str_split bp slash) 1 = Some b"
    and "parseInt (JStr (trim a)) = Inr NaN \<or> parseInt (JStr (trim b)) = Inr NaN"
  shows "bp_block p = Inr (0, True)"
  using assms element_1_includes [OF assms(3)]
  by (auto simp add: bp_block_def trim_of_def parseInt_def isInvalidNumber_def isNaN_def)

lemma temp_block_nan:
  "parseFloat (nullish (temperature p) (JStr [])) = Inr NaN \<Longrightarrow> temp_block p = Inr (0, False, True)"
  by (simp add: temp_block_def temp_rule_def isInvalidNumber_def isNaN_def)

lemma age_block_nan:
  "parseInt (nullish (age p) (JStr [])) = Inr NaN \<Longrightarrow> age_block p = Inr (0, True)"
  by (simp add: age_block_def age_rule_def isInvalidNumber_def isNaN_def)

lemma parse_missing:
  "parseFloat (nullish JUndefined (JStr [])) = Inr NaN"
  "parseFloat (nullish JNull (JStr [])) = Inr NaN"
  "parseFloat (nullish (JStr []) (JStr [])) = Inr NaN"
  "parseFloat (nullish (JBool b) (JStr [])) = Inr NaN"
  "parseInt (nullish JUndefined (JStr [])) = Inr NaN"
  "parseInt (nullish JNull (JStr [])) = Inr NaN"
  "parseInt (nullish (JStr []) (JStr [])) = Inr NaN"
  "parseInt (nullish (JBool b) (JStr [])) = Inr NaN"
  by (simp_all add: str_eval)

lemma ToString_primitive:
  "(\<forall>xs. v \<noteq> JArr xs) \<and> (\<forall>kvs. v \<noteq> JObj kvs) \<Longrightarrow> \<exists>s. ToString v = Inr s"
  by (cases v) simp_all

lemma calculateRiskScore_returns:
  "(\<exists>r. calculateRiskScore p = Inr r) =
     (ToString (temperature p) \<noteq> Inl TypeError \<and> ToString (age p) \<noteq> Inl TypeError)"
proof -
  obtain b bi where b: "bp_block p = Inr (b, bi)" using bp_block_total [of p] by blast
  show ?thesis
    unfolding block_returns [symmetric] calculateRiskScore_blocks [OF b]
    by (auto split: sum.splits)
qed

lemma calculateRiskScore_throws:
  "(calculateRiskScore p = Inl TypeError) =
     (ToString (temperature p) = Inl TypeError \<or> ToString (age p) = Inl TypeError)"
  using calculateRiskScore_returns [of p]
  by (cases "calculateRiskScore p") (auto simp: error_TypeError)

lemma scorer_result:
  assumes "calculateRiskScore p = Inr r"
  shows "\<exists>b bi t f ti g gi. bp_block p = Inr (b, bi) \<and> temp_block p = Inr (t, f, ti) \<and>
     age_block p = Inr (g, gi) \<and> b \<le> 3 \<and> t \<le> 2 \<and> g \<le> 2 \<and>
     score r = b + t + g \<and> score r \<le> 7 \<and> res_isFever r = f \<and>
     res_hasDataQualityIssue r = (bi \<or> ti \<or> gi)"
proof -
  obtain b bi where b: "bp_block p = Inr (b, bi)" "b \<le> 3"
    using bp_block_total [of p] by blast
  from assms obtain t f ti g gi where
    t: "temp_block p = Inr (t, f, ti)" and g: "age_block p = Inr (g, gi)"
    and r: "r = \<lparr>score = b + t + g, res_isFever = f, res_hasDataQualityIssue = (bi \<or> ti \<or> gi)\<rparr>"
    by (auto simp: calculateRiskScore_blocks [OF b(1)] split: sum.splits prod.splits)
  have "b + t + g \<le> 7"
    using b(2) temp_block_le [OF t] age_block_le [OF g] by linarith
  then show ?thesis
    using b t g r temp_block_le [OF t] age_block_le [OF g] by simp
qed

lemma temp_rule_flag: "snd (snd (temp_rule y)) = (y = NaN)"
  by (simp add: temp_rule_def isInvalidNumber_def isNaN_def)

lemma age_rule_flag: "snd (age_rule y) = (y = NaN)"
  by (simp add: age_rule_def isInvalidNumber_def isNaN_def)

lemma temp_block_number:
  assumes "temperature p = JNum (Fin x)"
  shows "\<exists>t f. temp_block p = Inr (t, f, False)"
proof -
  define y where "y = parseFloat_str (Number_toString (Fin x))"
  have y: "y \<noteq> NaN" unfolding y_def by (rule parse_Number_toString(2))
  have tb: "temp_block p = Inr (temp_rule y)"
    using assms by (simp add: temp_block_ToString nullish_def y_def del: Number_toString.simps)
  obtain t f ti where r: "temp_rule y = (t, f, ti)" by (cases "temp_rule y") auto
  with temp_rule_flag [of y] y have "ti = False" by simp
  with tb r show ?thesis by simp
qed

lemma age_block_number:
  assumes "age p = JNum (Fin x)"
  shows "\<exists>g. age_block p = Inr (g, False)"
proof -
  define y where "y = parseInt_str (Number_toString (Fin x))"
  have y: "y \<noteq> NaN" unfolding y_def by (rule parse_Number_toString(1))
  have tb: "age_block p = Inr (age_rule y)"
    using assms by (simp add: age_block_ToString nullish_def y_def del: Number_toString.simps)
  obtain g gi where r: "age_rule y = (g, gi)" by (cases "age_rule y") auto
  with age_rule_flag [of y] y have "gi = False" by simp
  with tb r show ?thesis by simp
qed

lemma Number_toString_102: "Number_toString (Fin 102) = js ''102''"
  by (simp add: tostring_eval to_double_eval js_def)

lemma Number_toString_70: "Number_toString (Fin 70) = js ''70''"
  by (simp add: tostring_eval to_double_eval js_def)

lemma Number_toString_1e21: "Number_toString (Fin 1000000000000000000000) = js ''1e+21''"
  by (simp add: tostring_eval to_double_eval js_def)

lemma temp_block_102: "temp_block (mk_patient i bp (JNum (Fin 102)) a) = Inr (2, True, False)"
  by (simp add: temp_block_ToString nullish_def mk_patient_def Number_toString_102 temp_rule_def
      isInvalidNumber_def isNaN_def js_ge_def lit_eval str_eval
      del: Number_toString.simps)

lemma age_block_70: "age_block (mk_patient i bp t (JNum (Fin 70))) = Inr (2, False)"
  by (simp add: age_block_ToString nullish_def mk_patient_def Number_toString_70 age_rule_def
      isInvalidNumber_def isNaN_def js_ge_def js_gt_def lit_eval str_eval
      del: Number_toString.simps)

lemma age_block_1e21: "age_block (mk_patient i bp t (JNum (Fin (10 ^ 21)))) = Inr (0, False)"
  by (simp add: age_block_ToString nullish_def mk_patient_def Number_toString_1e21 age_rule_def
      isInvalidNumber_def isNaN_def js_ge_def js_gt_def lit_eval str_eval
      del: Number_toString.simps)

text \<open>
  C3 (as amended). The scorer returns a result exactly when the conversions of the temperature
  and of the age to a string do not throw, which is so for every field that is absent, null,
  a boolean, a number or a string; otherwise it throws a TypeError. When it returns, the
  total is the sum of the three sub-scores, each within its range, and lies in 0..7, and the
  quality flag is the disjunction of the flags of the three blocks. A blood pressure that is
  not a string (absent and null included), has no \<open>/\<close>, or has a part that \<open>parseInt\<close>
  reads as NaN, sets the flag and contributes 0; so does a temperature or an age that is
  absent, null, empty, a boolean, or that the parser reads as NaN. A temperature or an age that
  is a finite number is parsed from its decimal string and never sets the flag: the
  temperature 102 scores 2 with fever and the age 70 scores 2, while the age \<open>10\<^sup>2\<^sup>1\<close>, whose
  string is \<open>1e+21\<close>, is read as 1 and scores 0.
\<close>

theorem scorer_total_malformed_fields:
  "(\<forall>p. (\<exists>r. calculateRiskScore p = Inr r) =
          (ToString (temperature p) \<noteq> Inl TypeError \<and> ToString (age p) \<noteq> Inl TypeError))
   \<and> (\<forall>p. (calculateRiskScore p = Inl TypeError) =
          (ToString (temperature p) = Inl TypeError \<or> ToString (age p) = Inl TypeError))
   \<and> (\<forall>v. (\<forall>xs. v \<noteq> JArr xs) \<and> (\<forall>kvs. v \<noteq> JObj kvs) \<longrightarrow> (\<exists>s. ToString v = Inr s))
   \<and> (\<forall>p r. calculateRiskScore p = Inr r \<longrightarrow>
        (\<exists>b bi t f ti g gi. bp_block p = Inr (b, bi) \<and> temp_block p = Inr (t, f, ti) \<and>
           age_block p = Inr (g, gi) \<and> b \<le> 3 \<and> t \<le> 2 \<and> g \<le> 2 \<and>
           score r = b + t + g \<and> score r \<le> 7 \<and> res_isFever r = f \<and>
           res_hasDataQualityIssue r = (bi \<or> ti \<or> gi)))
   \<and> (\<forall>p. (\<forall>s. blood_pressure p \<noteq> JStr s) \<longrightarrow> bp_block p = Inr (0, True))
   \<and> (\<forall>p bp. blood_pressure p = JStr bp \<and> \<not> str_includes bp slash \<longrightarrow> bp_block p = Inr (0, True))
   \<and> (\<forall>p bp a b. blood_pressure p = JStr bp \<and>
          element (str_split bp slash) 0 = Some a \<and> element (str_split bp slash) 1 = Some b \<and>
          (parseInt (JStr (trim a)) = Inr NaN \<or> parseInt (JStr (trim b)) = Inr NaN) \<longrightarrow>
          bp_block p = Inr (0, True))
   \<and> (\<forall>p. temperature p = JUndefined \<or> temperature p = JNull \<or> temperature p = JStr [] \<or>
          (\<exists>b. temperature p = JBool b) \<or>
          parseFloat (nullish (temperature p) (JStr [])) = Inr NaN \<longrightarrow>
          temp_block p = Inr (0, False, True))
   \<and> (\<forall>p. age p = JUndefined \<or> age p = JNull \<or> age p = JStr [] \<or> (\<exists>b. age p = JBool b) \<or>
          parseInt (nullish (age p) (JStr [])) = Inr NaN \<longrightarrow>
          age_block p = Inr (0, True))
   \<and> (\<forall>p x. temperature p = JNum (Fin x) \<longrightarrow> (\<exists>t f. temp_block p = Inr (t, f, False)))
   \<and> (\<forall>p x. age p = JNum (Fin x) \<longrightarrow> (\<exists>g. age_block p = Inr (g, False)))
   \<and> (\<forall>i bp a. temp_block (mk_patient i bp (JNum (Fin 102)) a) = Inr (2, True, False))
   \<and> (\<forall>i bp t. age_block (mk_patient i bp t (JNum (Fin 70))) = Inr (2, False))
   \<and> (\<forall>i bp t. age_block (mk_patient i bp t (JNum (Fin (10 ^ 21)))) = Inr (0, False))"
proof (intro conjI allI impI)
  fix p :: patient
  show "(\<exists>r. calculateRiskScore p = Inr r) =
          (ToString (temperature p) \<noteq> Inl TypeError \<and> ToString (age p) \<noteq> Inl TypeError)"
    by (rule calculateRiskScore_returns)
next
  fix p :: patient
  show "(calculateRiskScore p = Inl TypeError) =
          (ToString (temperature p) = Inl TypeError \<or> ToString (age p) = Inl TypeError)"
    by (rule calculateRiskScore_throws)
next
  fix v
  assume "(\<forall>xs. v \<noteq> JArr xs) \<and> (\<forall>kvs. v \<noteq> JObj kvs)"
  then show "\<exists>s. ToString v = Inr s" by (rule ToString_primitive)
next
  fix p :: patient and r
  assume "calculateRiskScore p = Inr r"
  then show "\<exists>b bi t f ti g gi. bp_block p = Inr (b, bi) \<and> temp_block p = Inr (t, f, ti) \<and>
           age_block p = Inr (g, gi) \<and> b \<le> 3 \<and> t \<le> 2 \<and> g \<le> 2 \<and>
           score r = b + t + g \<and> score r \<le> 7 \<and> res_isFever r = f \<and>
           res_hasDataQualityIssue r = (bi \<or> ti \<or> gi)"
    by (rule scorer_result)
next
  fix p :: patient
  assume "\<forall>s. blood_pressure p \<noteq> JStr s"
  then show "bp_block p = Inr (0, True)" by (rule bp_block_not_string)
next
  fix p :: patient and bp
  assume "blood_pressure p = JStr bp \<and> \<not> str_includes bp slash"
  then show "bp_block p = Inr (0, True)" by (simp add: bp_block_no_slash)
next
  fix p :: patient and bp a b
  assume "blood_pressure p = JStr bp \<and>
          element (str_split bp slash) 0 = Some a \<and> element (str_split bp slash) 1 = Some b \<and>
          (parseInt (JStr (trim a)) = Inr NaN \<or> parseInt (JStr (trim b)) = Inr NaN)"
  then show "bp_block p = Inr (0, True)" using bp_block_nan [of p bp a b] by blast
next
  fix p :: patient
  assume "temperature p = JUndefined \<or> temperature p = JNull \<or> temperature p = JStr [] \<or>
          (\<exists>b. temperature p = JBool b) \<or>
          parseFloat (nullish (temperature p) (JStr [])) = Inr NaN"
  then have "parseFloat (nullish (temperature p) (JStr [])) = Inr NaN"
    by (auto simp: parse_missing)
  then show "temp_block p = Inr (0, False, True)" by (rule temp_block_nan)
next
  fix p :: patient
  assume "age p = JUndefined \<or> age p = JNull \<or> age p = JStr [] \<or> (\<exists>b. age p = JBool b) \<or>
          parseInt (nullish (age p) (JStr [])) = Inr NaN"
  then have "parseInt (nullish (age p) (JStr [])) = Inr NaN"
    by (auto simp: parse_missing)
  then show "age_block p = Inr (0, True)" by (rule age_block_nan)
next
  fix p :: patient and x
  assume "temperature p = JNum (Fin x)"
  then show "\<exists>t f. temp_block p = Inr (t, f, False)" by (rule temp_block_number)
next
  fix p :: patient and x
  assume "age p = JNum (Fin x)"
  then show "\<exists>g. age_block p = Inr (g, False)" by (rule age_block_number)
next
  fix i bp a
  show "temp_block (mk_patient i bp (JNum (Fin 102)) a) = Inr (2, True, False)"
    by (rule temp_block_102)
next
  fix i bp t
  show "age_block (mk_patient i bp t (JNum (Fin 70))) = Inr (2, False)"
    by (rule age_block_70)
next
  fix i bp t
  show "age_block (mk_patient i bp t (JNum (Fin (10 ^ 21)))) = Inr (0, False)"
    by (rule age_block_1e21)
qed

text \<open>
  A record with no blood pressure, the temperature \<open>TEMP_ERROR\<close> and an empty age; the
  blood pressures \<open>120\<close> and \<open>N/A\<close>; and a record whose temperature and age are the
  numbers 102 and 70.
\<close>

theorem scorer_total_malformed_fields_witness:
  "calculateRiskScore (mk_patient ''p1'' JUndefined (JStr (js ''TEMP_ERROR'')) (JStr []))
     = Inr \<lparr>score = 0, res_isFever = False, res_hasDataQualityIssue = True\<rparr>
   \<and> bp_block (mk_patient ''p1'' JUndefined (JStr (js ''TEMP_ERROR'')) (JStr [])) = Inr (0, True)
   \<and> parseFloat (nullish (JStr (js ''TEMP_ERROR'')) (JStr [])) = Inr NaN
   \<and> temp_block (mk_patient ''p1'' JUndefined (JStr (js ''TEMP_ERROR'')) (JStr [])) = Inr (0, False, True)
   \<and> age_block (mk_patient ''p1'' JUndefined (JStr (js ''TEMP_ERROR'')) (JStr [])) = Inr (0, True)
   \<and> \<not> str_includes (js ''120'') slash
   \<and> bp_block (mk_patient ''p2'' (JStr (js ''120'')) JNull JNull) = Inr (0, True)
   \<and> element (str_split (js ''N/A'') slash) 0 = Some (js ''N'')
   \<and> element (str_split (js ''N/A'') slash) 1 = Some (js ''A'')
   \<and> parseInt (JStr (trim (js ''N''))) = Inr NaN
   \<and> bp_block (mk_patient ''p3'' (JStr (js ''N/A'')) JNull JNull) = Inr (0, True)
   \<and> (\<exists>r. calculateRiskScore (mk_patient ''p4'' (JStr (js ''120/80'')) (JNum (Fin 102)) (JNum (Fin 70)))
          = Inr r)
   \<and> (\<exists>t f. temp_block (mk_patient ''p4'' (JStr (js ''120/80'')) (JNum (Fin 102)) (JNum (Fin 70)))
          = Inr (t, f, False))
   \<and> (\<exists>g. age_block (mk_patient ''p4'' (JStr (js ''120/80'')) (JNum (Fin 102)) (JNum (Fin 70)))
          = Inr (g, False))
   \<and> (\<exists>s. ToString (JBool False) = Inr s)"
proof -
  note T = scorer_total_malformed_fields
  let ?p1 = "mk_patient ''p1'' JUndefined (JStr (js ''TEMP_ERROR'')) (JStr [])"
  let ?p2 = "mk_patient ''p2'' (JStr (js ''120'')) JNull JNull"
  let ?p3 = "mk_patient ''p3'' (JStr (js ''N/A'')) JNull JNull"
  let ?p4 = "mk_patient ''p4'' (JStr (js ''120/80'')) (JNum (Fin 102)) (JNum (Fin 70))"
  have h1: "\<forall>s. blood_pressure ?p1 \<noteq> JStr s" by (simp add: mk_patient_def)
  have c1: "bp_block ?p1 = Inr (0, True)"
    using T [THEN conjunct2, THEN conjunct2, THEN conjunct2, THEN conjunct2, THEN conjunct1,
        THEN spec, THEN mp, OF h1] .
  have n2: "parseFloat (nullish (JStr (js ''TEMP_ERROR'')) (JStr [])) = Inr NaN"
    by (simp add: str_eval)
  have h2: "temperature ?p1 = JUndefined \<or> temperature ?p1 = JNull \<or> temperature ?p1 = JStr [] \<or>
          (\<exists>b. temperature ?p1 = JBool b) \<or>
          parseFloat (nullish (temperature ?p1) (JStr [])) = Inr NaN"
    using n2 by (simp add: mk_patient_def)
  have c2: "temp_block ?p1 = Inr (0, False, True)"
    using T [THEN conjunct2, THEN conjunct2, THEN conjunct2, THEN conjunct2, THEN conjunct2,
        THEN conjunct2, THEN conjunct2, THEN conjunct1, rule_format, OF h2] .
  have h3: "age ?p1 = JUndefined \<or> age ?p1 = JNull \<or> age ?p1 = JStr [] \<or> (\<exists>b. age ?p1 = JBool b) \<or>
          parseInt (nullish (age ?p1) (JStr [])) = Inr NaN"
    by (simp add: mk_patient_def)
  have c3: "age_block ?p1 = Inr (0, True)"
    using T [THEN conjunct2, THEN conjunct2, THEN conjunct2, THEN conjunct2, THEN conjunct2,
        THEN conjunct2, THEN conjunct2, THEN conjunct2, THEN conjunct1, rule_format, OF h3] .
  have r1: "\<exists>r. calculateRiskScore ?p1 = Inr r"
    unfolding T [THEN conjunct1, rule_format] by (simp add: mk_patient_def)
  then obtain r where r: "calculateRiskScore ?p1 = Inr r" by blast
  from T [THEN conjunct2, THEN conjunct2, THEN conjunct2, THEN conjunct1, rule_format, OF r] c1 c2 c3
  have "score r = 0" "res_isFever r = False" "res_hasDataQualityIssue r = True" by auto
  then have "r = \<lparr>score = 0, res_isFever = False, res_hasDataQualityIssue = True\<rparr>" by simp
  with r have c0: "calculateRiskScore ?p1
      = Inr \<lparr>score = 0, res_isFever = False, res_hasDataQualityIssue = True\<rparr>" by simp
  have n4: "\<not> str_includes (js ''120'') slash" by (simp add: str_eval)
  have h4: "blood_pressure ?p2 = JStr (js ''120'') \<and> \<not> str_includes (js ''120'') slash"
    using n4 by (simp add: mk_patient_def)
  have c4: "bp_block ?p2 = Inr (0, True)"
    using T [THEN conjunct2, THEN conjunct2, THEN conjunct2, THEN conjunct2, THEN conjunct2,
        THEN conjunct1, rule_format, OF h4] .
  have n5: "element (str_split (js ''N/A'') slash) 0 = Some (js ''N'')"
    "element (str_split (js ''N/A'') slash) 1 = Some (js ''A'')"
    "parseInt (JStr (trim (js ''N''))) = Inr NaN"
    by (simp_all add: str_eval)
  have h5: "blood_pressure ?p3 = JStr (js ''N/A'') \<and>
          element (str_split (js ''N/A'') slash) 0 = Some (js ''N'') \<and>
          element (str_split (js ''N/A'') slash) 1 = Some (js ''A'') \<and>
          (parseInt (JStr (trim (js ''N''))) = Inr NaN \<or> parseInt (JStr (trim (js ''A''))) = Inr NaN)"
    using n5 by (simp add: mk_patient_def)
  have c5: "bp_block ?p3 = Inr (0, True)"
    using T [THEN conjunct2, THEN conjunct2, THEN conjunct2, THEN conjunct2, THEN conjunct2,
        THEN conjunct2, THEN conjunct1, rule_format, OF h5] .
  have c6: "\<exists>r. calculateRiskScore ?p4 = Inr r"
    unfolding T [THEN conjunct1, rule_format]
    by (simp add: mk_patient_def del: Number_toString.simps)
  have h7: "temperature ?p4 = JNum (Fin 102)" "age ?p4 = JNum (Fin 70)"
    by (simp_all add: mk_patient_def)
  have c7: "\<exists>t f. temp_block ?p4 = Inr (t, f, False)"
    using T [THEN conjunct2, THEN conjunct2, THEN conjunct2, THEN conjunct2, THEN conjunct2,
        THEN conjunct2, THEN conjunct2, THEN conjunct2, THEN conjunct2, THEN conjunct1,
        rule_format, OF h7(1)] .
  have c8: "\<exists>g. age_block ?p4 = Inr (g, False)"
    using T [THEN conjunct2, THEN conjunct2, THEN conjunct2, THEN conjunct2, THEN conjunct2,
        THEN conjunct2, THEN conjunct2, THEN conjunct2, THEN conjunct2, THEN conjunct2,
        THEN conjunct1, rule_format, OF h7(2)] .
  have h9: "(\<forall>xs. JBool False \<noteq> JArr xs) \<and> (\<forall>kvs. JBool False \<noteq> JObj kvs)" by simp
  have c9: "\<exists>s. ToString (JBool False) = Inr s"
    using T [THEN conjunct2, THEN conjunct2, THEN conjunct1, rule_format, OF h9] .
  show ?thesis using c0 c1 n2 c2 c3 n4 c4 n5 c5 c6 c7 c8 c9 by simp
qed

text \<open>
  The claim as it was stated fails on two records. One has for temperature an object with
  a property \<open>toString\<close>: the scorer throws. The other has for temperature and age the
  numbers 102 and 70, which are not strings: both are scored and no quality issue is raised.
\<close>

theorem scorer_not_total_counterexample:
  "calculateRiskScore
     (mk_patient ''p1'' (JStr (js ''120/80'')) (JObj [(js ''toString'', JNum (Fin 1))])
        (JStr (js ''70'')))
   = Inl TypeError
   \<and> calculateRiskScore
     (mk_patient ''p2'' (JStr (js ''120/80'')) (JNum (Fin 102)) (JNum (Fin 70)))
   = Inr \<lparr>score = 6, res_isFever = True, res_hasDataQualityIssue = False\<rparr>"
  by (simp add: calculateRiskScore_def bp_block_def temp_block_ToString age_block_ToString
      temp_rule_def age_rule_def bp_thresholds_def mk_patient_def trim_of_def
      Number_toString_102 Number_toString_70
      isInvalidNumber_def isNaN_def js_ge_def js_gt_def lit_eval str_eval
      del: Number_toString.simps)

section \<open>The scorer: temperature\<close>

lemma js_le_upper: "js_le x (Fin b) \<Longrightarrow> x = NegInf \<or> (\<exists>v. x = Fin v \<and> v \<le> b)"
  by (cases x) auto

lemma js_le_lower: "js_le (Fin a) x \<Longrightarrow> x = PosInf \<or> (\<exists>v. x = Fin v \<and> a \<le> v)"
  by (cases x) auto

lemma temp_rule_Fin:
  "temp_rule (Fin t) =
     (if t \<le> 199 / 2 then (0, False, False)
      else if 3504363460047667 / 35184372088832 \<le> t \<and> t \<le> 3550103143763149 / 35184372088832
        then (1, True, False)
      else if 101 \<le> t then (2, True, False)
      else (0, False, False))"
  by (auto simp: temp_rule_def isInvalidNumber_def isNaN_def js_ge_def lit_eval)

lemma temp_rule_other:
  "temp_rule NaN = (0, False, True)"
  "temp_rule PosInf = (2, True, False)"
  "temp_rule NegInf = (0, False, False)"
  by (simp_all add: temp_rule_def isInvalidNumber_def isNaN_def js_ge_def lit_eval)

text \<open>
  The three rules on the exact value of a decimal: rounding it to a Number does not move it
  across 99.5 or 101, which are Numbers, nor out of 99.6..100.9, whose ends are rounded to
  the Numbers the literals of the source denote.
\<close>

lemma temp_rule_decimal:
  shows "q \<le> 995 / 10 \<Longrightarrow> temp_rule (to_double q) = (0, False, False)"
    and "996 / 10 \<le> q \<Longrightarrow> q \<le> 1009 / 10 \<Longrightarrow> temp_rule (to_double q) = (1, True, False)"
    and "101 \<le> q \<Longrightarrow> temp_rule (to_double q) = (2, True, False)"
proof -
  show "temp_rule (to_double q) = (0, False, False)" if "q \<le> 995 / 10"
  proof -
    have "js_le (to_double q) (to_double (995 / 10))" using that by (rule to_double_mono)
    then have "js_le (to_double q) (Fin (199 / 2))" using lit_99_5 by (simp add: lit_def)
    from js_le_upper [OF this] show ?thesis
      by (auto simp: temp_rule_Fin temp_rule_other)
  qed
  show "temp_rule (to_double q) = (1, True, False)" if "996 / 10 \<le> q" "q \<le> 1009 / 10"
  proof -
    have "js_le (to_double (996 / 10)) (to_double q)" using that(1) by (rule to_double_mono)
    then have a: "js_le (Fin (3504363460047667 / 35184372088832)) (to_double q)"
      using lit_99_6 by (simp add: lit_def)
    have "js_le (to_double q) (to_double (1009 / 10))" using that(2) by (rule to_double_mono)
    then have b: "js_le (to_double q) (Fin (3550103143763149 / 35184372088832))"
      using lit_100_9 by (simp add: lit_def)
    from js_le_lower [OF a] js_le_upper [OF b] show ?thesis
      by (auto simp: temp_rule_Fin temp_rule_other)
  qed
  show "temp_rule (to_double q) = (2, True, False)" if "101 \<le> q"
  proof -
    have "js_le (to_double 101) (to_double q)" using that by (rule to_double_mono)
    then have a: "js_le (Fin 101) (to_double q)" by (simp add: to_double_numeral)
    from js_le_lower [OF a] show ?thesis
      by (auto simp: temp_rule_Fin temp_rule_other)
  qed
qed

lemma temp_block_literal:
  assumes "ToString (nullish (temperature p) (JStr [])) = Inr s"
  shows "temp_block p =
    Inr (temp_rule (case strDecimalLiteral s of
                      NoLiteral \<Rightarrow> NaN
                    | InfinityLiteral neg \<Rightarrow> (if neg then NegInf else PosInf)
                    | Decimal q \<Rightarrow> to_double q))"
  using assms by (simp add: temp_block_ToString parseFloat_str_def)

lemma temp_block_examples:
  "temp_block (mk_patient i bp (JStr (js ''100.0'')) a) = Inr (1, True, False)"
  "temp_block (mk_patient i bp (JStr (js ''98.0'')) a) = Inr (0, False, False)"
  "temp_block (mk_patient i bp (JStr (js ''99.5'')) a) = Inr (0, False, False)"
  "temp_block (mk_patient i bp (JStr (js ''99.6'')) a) = Inr (1, True, False)"
  "temp_block (mk_patient i bp (JStr (js ''100.9'')) a) = Inr (1, True, False)"
  "temp_block (mk_patient i bp (JStr (js ''101.0'')) a) = Inr (2, True, False)"
  by (simp_all add: temp_block_def temp_rule_def mk_patient_def isInvalidNumber_def isNaN_def
      js_ge_def lit_eval str_eval to_double_eval)

text \<open>
  C8 (as amended). For every record whose temperature can be converted to a string, with
  \<open>q\<close> the value of the decimal literal that \<open>parseFloat\<close> reads at the start of that
  string: \<open>q \<le> 99.5\<close> gives sub-score 0 without fever, \<open>99.6 \<le> q \<le> 100.9\<close> gives 1 with
  fever, \<open>q \<ge> 101\<close> gives 2 with fever, none of them raising a quality issue. A temperature
  that is missing (undefined or null) or in which no literal is read gives sub-score 0, no
  fever and a quality issue. Invalid means that alone: \<open>Infinity\<close> is scored 2 with fever and
  \<open>-Infinity\<close> 0 without, with no quality issue. On the Number \<open>t\<close> that is read, the rules
  are the comparisons of the source with the Numbers its literals denote. The fever flag of
  the result is the one of the block. \<open>100.0\<close> gives 1 with fever and \<open>98.0\<close> gives 0
  without; the ends \<open>99.5\<close>, \<open>99.6\<close>, \<open>100.9\<close> and \<open>101.0\<close> give 0, 1, 1 and 2.
\<close>

theorem temperature_rules:
  "(\<forall>p s q. ToString (nullish (temperature p) (JStr [])) = Inr s \<and>
          strDecimalLiteral s = Decimal q \<longrightarrow>
       (q \<le> 995 / 10 \<longrightarrow> temp_block p = Inr (0, False, False)) \<and>
       (996 / 10 \<le> q \<and> q \<le> 1009 / 10 \<longrightarrow> temp_block p = Inr (1, True, False)) \<and>
       (101 \<le> q \<longrightarrow> temp_block p = Inr (2, True, False)))
   \<and> (\<forall>p. temperature p = JUndefined \<or> temperature p = JNull \<or>
          (\<exists>s. ToString (temperature p) = Inr s \<and> strDecimalLiteral s = NoLiteral) \<longrightarrow>
          temp_block p = Inr (0, False, True))
   \<and> (\<forall>p s. ToString (nullish (temperature p) (JStr [])) = Inr s \<and>
          strDecimalLiteral s = InfinityLiteral False \<longrightarrow>
          temp_block p = Inr (2, True, False))
   \<and> (\<forall>p s. ToString (nullish (temperature p) (JStr [])) = Inr s \<and>
          strDecimalLiteral s = InfinityLiteral True \<longrightarrow>
          temp_block p = Inr (0, False, False))
   \<and> (\<forall>p t. parseFloat (nullish (temperature p) (JStr [])) = Inr (Fin t) \<longrightarrow>
          temp_block p =
            Inr (if t \<le> 199 / 2 then (0, False, False)
                 else if 3504363460047667 / 35184372088832 \<le> t \<and>
                         t \<le> 3550103143763149 / 35184372088832 then (1, True, False)
                 else if 101 \<le> t then (2, True, False)
                 else (0, False, False)))
   \<and> (\<forall>p r. calculateRiskScore p = Inr r \<longrightarrow>
          (\<exists>t f ti. temp_block p = Inr (t, f, ti) \<and> res_isFever r = f \<and>
             (ti \<longrightarrow> res_hasDataQualityIssue r)))
   \<and> temp_block (mk_patient i bp (JStr (js ''100.0'')) a) = Inr (1, True, False)
   \<and> temp_block (mk_patient i bp (JStr (js ''98.0'')) a) = Inr (0, False, False)
   \<and> temp_block (mk_patient i bp (JStr (js ''99.5'')) a) = Inr (0, False, False)
   \<and> temp_block (mk_patient i bp (JStr (js ''99.6'')) a) = Inr (1, True, False)
   \<and> temp_block (mk_patient i bp (JStr (js ''100.9'')) a) = Inr (1, True, False)
   \<and> temp_block (mk_patient i bp (JStr (js ''101.0'')) a) = Inr (2, True, False)"
proof (intro conjI allI impI)
  fix p :: patient and s q
  assume h: "ToString (nullish (temperature p) (JStr [])) = Inr s \<and>
          strDecimalLiteral s = Decimal q"
  then have tb: "temp_block p = Inr (temp_rule (to_double q))"
    by (simp add: temp_block_literal)
  show "temp_block p = Inr (0, False, False)" if "q \<le> 995 / 10"
    using temp_rule_decimal(1) [OF that] tb by simp
  show "temp_block p = Inr (1, True, False)" if "996 / 10 \<le> q \<and> q \<le> 1009 / 10"
    using temp_rule_decimal(2) [of q] that tb by simp
  show "temp_block p = Inr (2, True, False)" if "101 \<le> q"
    using temp_rule_decimal(3) [OF that] tb by simp
next
  fix p :: patient
  assume "temperature p = JUndefined \<or> temperature p = JNull \<or>
          (\<exists>s. ToString (temperature p) = Inr s \<and> strDecimalLiteral s = NoLiteral)"
  then consider (a) "temperature p = JUndefined" | (b) "temperature p = JNull"
    | (c) s where "ToString (temperature p) = Inr s" "strDecimalLiteral s = NoLiteral"
    by blast
  then have "parseFloat (nullish (temperature p) (JStr [])) = Inr NaN"
  proof cases
    case a
    then show ?thesis by (simp add: parse_missing)
  next
    case b
    then show ?thesis by (simp add: parse_missing)
  next
    case c
    then have "parseFloat (temperature p) = Inr NaN"
      by (simp add: parseFloat_def parseFloat_str_def)
    then show ?thesis by (simp only: parse_nullish)
  qed
  then show "temp_block p = Inr (0, False, True)" by (rule temp_block_nan)
next
  fix p :: patient and s
  assume "ToString (nullish (temperature p) (JStr [])) = Inr s \<and>
          strDecimalLiteral s = InfinityLiteral False"
  then show "temp_block p = Inr (2, True, False)"
    by (simp add: temp_block_literal temp_rule_other)
next
  fix p :: patient and s
  assume "ToString (nullish (temperature p) (JStr [])) = Inr s \<and>
          strDecimalLiteral s = InfinityLiteral True"
  then show "temp_block p = Inr (0, False, False)"
    by (simp add: temp_block_literal temp_rule_other)
next
  fix p :: patient and t
  assume "parseFloat (nullish (temperature p) (JStr [])) = Inr (Fin t)"
  then show "temp_block p =
            Inr (if t \<le> 199 / 2 then (0, False, False)
                 else if 3504363460047667 / 35184372088832 \<le> t \<and>
                         t \<le> 3550103143763149 / 35184372088832 then (1, True, False)
                 else if 101 \<le> t then (2, True, False)
                 else (0, False, False))"
    by (simp add: temp_block_def temp_rule_Fin)
next
  fix p :: patient and r
  assume "calculateRiskScore p = Inr r"
  from scorer_result [OF this]
  show "\<exists>t f ti. temp_block p = Inr (t, f, ti) \<and> res_isFever r = f \<and>
             (ti \<longrightarrow> res_hasDataQualityIssue r)"
    by auto
qed (rule temp_block_examples)+

text \<open>
  The temperatures \<open>99.6\<close>, \<open>98.0\<close>, \<open>101.5\<close>, \<open>TEMP_ERROR\<close> and \<open>-Infinity\<close>, and the
  number 102.
\<close>

theorem temperature_rules_witness:
  "strDecimalLiteral (js ''99.6'') = Decimal (996 / 10)
   \<and> temp_block (mk_patient ''p1'' JNull (JStr (js ''99.6'')) JNull) = Inr (1, True, False)
   \<and> strDecimalLiteral (js ''98.0'') = Decimal 98
   \<and> temp_block (mk_patient ''p2'' JNull (JStr (js ''98.0'')) JNull) = Inr (0, False, False)
   \<and> strDecimalLiteral (js ''101.5'') = Decimal (1015 / 10)
   \<and> temp_block (mk_patient ''p3'' JNull (JStr (js ''101.5'')) JNull) = Inr (2, True, False)
   \<and> strDecimalLiteral (js ''TEMP_ERROR'') = NoLiteral
   \<and> temp_block (mk_patient ''p4'' JNull (JStr (js ''TEMP_ERROR'')) JNull) = Inr (0, False, True)
   \<and> strDecimalLiteral (js ''-Infinity'') = InfinityLiteral True
   \<and> temp_block (mk_patient ''p5'' JNull (JStr (js ''-Infinity'')) JNull) = Inr (0, False, False)
   \<and> parseFloat (nullish (JNum (Fin 102)) (JStr [])) = Inr (Fin 102)
   \<and> temp_block (mk_patient ''p6'' JNull (JNum (Fin 102)) JNull) = Inr (2, True, False)
   \<and> strDecimalLiteral (js ''Infinity'') = InfinityLiteral False
   \<and> temp_block (mk_patient ''p7'' JNull (JStr (js ''Infinity'')) JNull) = Inr (2, True, False)
   \<and> calculateRiskScore (mk_patient ''p1'' JNull (JStr (js ''99.6'')) JNull)
       = Inr \<lparr>score = 1, res_isFever = True, res_hasDataQualityIssue = True\<rparr>
   \<and> (\<exists>t ti. temp_block (mk_patient ''p1'' JNull (JStr (js ''99.6'')) JNull) = Inr (t, True, ti))"
proof -
  note T = temperature_rules [of "''x''" JNull JNull]
  let ?p1 = "mk_patient ''p1'' JNull (JStr (js ''99.6'')) JNull"
  let ?p2 = "mk_patient ''p2'' JNull (JStr (js ''98.0'')) JNull"
  let ?p3 = "mk_patient ''p3'' JNull (JStr (js ''101.5'')) JNull"
  let ?p4 = "mk_patient ''p4'' JNull (JStr (js ''TEMP_ERROR'')) JNull"
  let ?p5 = "mk_patient ''p5'' JNull (JStr (js ''-Infinity'')) JNull"
  let ?p6 = "mk_patient ''p6'' JNull (JNum (Fin 102)) JNull"
  have n1: "strDecimalLiteral (js ''99.6'') = Decimal (996 / 10)"
    and n2: "strDecimalLiteral (js ''98.0'') = Decimal 98"
    and n3: "strDecimalLiteral (js ''101.5'') = Decimal (1015 / 10)"
    and n4: "strDecimalLiteral (js ''TEMP_ERROR'') = NoLiteral"
    and n5: "strDecimalLiteral (js ''-Infinity'') = InfinityLiteral True"
    by (simp_all add: str_eval)
  have n6: "parseFloat (nullish (JNum (Fin 102)) (JStr [])) = Inr (Fin 102)"
    by (simp add: parseFloat_def nullish_def Number_toString_102 str_eval
        del: Number_toString.simps)
  have h1: "ToString (nullish (temperature ?p1) (JStr [])) = Inr (js ''99.6'') \<and>
      strDecimalLiteral (js ''99.6'') = Decimal (996 / 10)"
    using n1 by (simp add: mk_patient_def nullish_def)
  have h2: "ToString (nullish (temperature ?p2) (JStr [])) = Inr (js ''98.0'') \<and>
      strDecimalLiteral (js ''98.0'') = Decimal 98"
    using n2 by (simp add: mk_patient_def nullish_def)
  have h3: "ToString (nullish (temperature ?p3) (JStr [])) = Inr (js ''101.5'') \<and>
      strDecimalLiteral (js ''101.5'') = Decimal (1015 / 10)"
    using n3 by (simp add: mk_patient_def nullish_def)
  have h4: "temperature ?p4 = JUndefined \<or> temperature ?p4 = JNull \<or>
      (\<exists>s. ToString (temperature ?p4) = Inr s \<and> strDecimalLiteral s = NoLiteral)"
    using n4 by (simp add: mk_patient_def)
  have h5: "ToString (nullish (temperature ?p5) (JStr [])) = Inr (js ''-Infinity'') \<and>
      strDecimalLiteral (js ''-Infinity'') = InfinityLiteral True"
    using n5 by (simp add: mk_patient_def nullish_def)
  have h6: "parseFloat (nullish (temperature ?p6) (JStr [])) = Inr (Fin 102)"
    using n6 by (simp add: mk_patient_def del: Number_toString.simps)
  have c1: "temp_block ?p1 = Inr (1, True, False)"
    using T [THEN conjunct1, rule_format, OF h1] by simp
  have c2: "temp_block ?p2 = Inr (0, False, False)"
    using T [THEN conjunct1, rule_format, OF h2] by simp
  have c3: "temp_block ?p3 = Inr (2, True, False)"
    using T [THEN conjunct1, rule_format, OF h3] by simp
  have c4: "temp_block ?p4 = Inr (0, False, True)"
    using T [THEN conjunct2, THEN conjunct1, rule_format, OF h4] .
  have c5: "temp_block ?p5 = Inr (0, False, False)"
    using T [THEN conjunct2, THEN conjunct2, THEN conjunct2, THEN conjunct1, rule_format, OF h5] .
  have c6: "temp_block ?p6 = Inr (2, True, False)"
    using T [THEN conjunct2, THEN conjunct2, THEN conjunct2, THEN conjunct2, THEN conjunct1,
        rule_format, OF h6] by simp
  let ?p7 = "mk_patient ''p7'' JNull (JStr (js ''Infinity'')) JNull"
  have n7: "strDecimalLiteral (js ''Infinity'') = InfinityLiteral False"
    by (simp add: str_eval)
  have h7: "ToString (nullish (temperature ?p7) (JStr [])) = Inr (js ''Infinity'') \<and>
      strDecimalLiteral (js ''Infinity'') = InfinityLiteral False"
    using n7 by (simp add: mk_patient_def nullish_def)
  have c7: "temp_block ?p7 = Inr (2, True, False)"
    using T [THEN conjunct2, THEN conjunct2, THEN conjunct1, rule_format, OF h7] .
  have r8: "calculateRiskScore ?p1
       = Inr \<lparr>score = 1, res_isFever = True, res_hasDataQualityIssue = True\<rparr>"
    by (simp add: calculateRiskScore_def bp_block_def temp_block_def temp_rule_def age_block_def
        age_rule_def mk_patient_def isInvalidNumber_def isNaN_def js_ge_def lit_eval str_eval
        to_double_eval)
  from T [THEN conjunct2, THEN conjunct2, THEN conjunct2, THEN conjunct2, THEN conjunct2,
      THEN conjunct1, rule_format, OF r8]
  have c8: "\<exists>t ti. temp_block ?p1 = Inr (t, True, ti)" by auto
  show ?thesis using n1 c1 n2 c2 n3 c3 n4 c4 n5 c5 n6 c6 n7 c7 r8 c8 by simp
qed

text \<open>
  The claim as it was stated fails on the temperature \<open>Infinity\<close>: it does not parse to a
  finite value, and it is scored 2 with fever and no quality issue. It also fails on a
  temperature whose conversion to a string throws: there is no result to carry a flag.
\<close>

theorem temperature_infinity_counterexample:
  "parseFloat (nullish (JStr (js ''Infinity'')) (JStr [])) = Inr PosInf
   \<and> temp_block (mk_patient ''p1'' (JStr (js ''120/80'')) (JStr (js ''Infinity'')) (JStr (js ''30'')))
     = Inr (2, True, False)
   \<and> calculateRiskScore
       (mk_patient ''p1'' (JStr (js ''120/80'')) (JStr (js ''Infinity'')) (JStr (js ''30'')))
     = Inr \<lparr>score = 4, res_isFever = True, res_hasDataQualityIssue = False\<rparr>
   \<and> calculateRiskScore
       (mk_patient ''p2'' (JStr (js ''120/80'')) (JObj [(js ''toString'', JNull)]) (JStr (js ''30'')))
     = Inl TypeError"
  by (simp add: calculateRiskScore_def bp_block_def temp_block_def age_block_def
      temp_rule_def age_rule_def bp_thresholds_def
      mk_patient_def trim_of_def isInvalidNumber_def isNaN_def js_ge_def js_gt_def lit_eval str_eval)

section \<open>The page fetcher: backoff, cap and terminal failures\<close>

lemma fetch_attempts_exhausted:
  "maxRetries \<le> retries \<Longrightarrow> fetch_attempts srv pn lm retries w = (empty_result, w)"
  by (simp add: fetch_attempts.simps)

lemma fetch_attempts_ok:
  "retries < maxRetries \<Longrightarrow> get_response srv (requests w) pn lm = Ok b \<Longrightarrow>
   fetch_attempts srv pn lm retries w =
     (extract_body b, w\<lparr>requests := requests w + 1, trace := trace w @ [Get pn lm]\<rparr>)"
  by (simp add: fetch_attempts.simps [of srv pn lm retries w] emit_def)

lemma fetch_attempts_terminal:
  "retries < maxRetries \<Longrightarrow> get_response srv (requests w) pn lm = Fail st \<Longrightarrow>
   \<not> transient st \<Longrightarrow>
   fetch_attempts srv pn lm retries w =
     (empty_result,
      w\<lparr>requests := requests w + 1, trace := trace w @ [Get pn lm, ErrorUnrecoverable pn]\<rparr>)"
  by (simp add: fetch_attempts.simps [of srv pn lm retries w] emit_def)

lemma fetch_attempts_transient:
  "retries < maxRetries \<Longrightarrow> get_response srv (requests w) pn lm = Fail st \<Longrightarrow>
   transient st \<Longrightarrow>
   fetch_attempts srv pn lm retries w =
     fetch_attempts srv pn lm (retries + 1)
       (w\<lparr>requests := requests w + 1,
          trace := trace w @ [Get pn lm, WarnRetry (retries + 1) pn (baseDelay * 2 ^ retries) st,
                              Sleep (baseDelay * 2 ^ retries)]\<rparr>)"
  by (simp add: fetch_attempts.simps [of srv pn lm retries w] emit_def sleep_def Let_def)

lemma fetch_attempts_failures:
  assumes "\<And>i. i < k \<Longrightarrow>
             get_response srv (requests w + i) pn lm = Fail (st (retries + i)) \<and>
             transient (st (retries + i))"
    and "retries + k \<le> maxRetries"
  shows "fetch_attempts srv pn lm retries w =
     fetch_attempts srv pn lm (retries + k)
       (w\<lparr>requests := requests w + k,
          trace := trace w @ concat (map (retry_events pn lm st) [retries..<retries + k])\<rparr>)"
  using assms
proof (induction k arbitrary: retries w)
  case 0
  then show ?case by simp
next
  case (Suc k)
  let ?w1 = "w\<lparr>requests := requests w + 1,
          trace := trace w @ [Get pn lm, WarnRetry (retries + 1) pn (baseDelay * 2 ^ retries) (st retries),
                              Sleep (baseDelay * 2 ^ retries)]\<rparr>"
  have first: "get_response srv (requests w) pn lm = Fail (st retries)" "transient (st retries)"
    using Suc.prems(1) [of 0] by simp_all
  have lt: "retries < maxRetries" using Suc.prems(2) by simp
  have step: "fetch_attempts srv pn lm retries w = fetch_attempts srv pn lm (retries + 1) ?w1"
    by (rule fetch_attempts_transient [OF lt first])
  have rest: "get_response srv (requests ?w1 + i) pn lm = Fail (st (retries + 1 + i)) \<and>
             transient (st (retries + 1 + i))" if "i < k" for i
    using Suc.prems(1) [of "Suc i"] that by simp
  have up: "[retries..<retries + Suc k] = retries # [retries + 1..<retries + 1 + k]"
    using upt_conv_Cons [of retries "retries + Suc k"] by (simp del: upt_Suc)
  have "fetch_attempts srv pn lm (retries + 1) ?w1 =
     fetch_attempts srv pn lm (retries + 1 + k)
       (?w1\<lparr>requests := requests ?w1 + k,
          trace := trace ?w1 @ concat (map (retry_events pn lm st) [retries + 1..<retries + 1 + k])\<rparr>)"
    using Suc.IH [of ?w1 "retries + 1"] rest Suc.prems(2) by simp
  moreover have "retry_events pn lm st retries =
      [Get pn lm, WarnRetry (retries + 1) pn (baseDelay * 2 ^ retries) (st retries),
       Sleep (baseDelay * 2 ^ retries)]"
    by (simp add: retry_events_def)
  ultimately show ?case
    unfolding step up by (simp del: upt_Suc)
qed

lemma fetchPatientsPage_failures_then:
  assumes "\<And>i. i < k \<Longrightarrow>
             get_response srv (requests w + i) pn lm = Fail (st i) \<and> transient (st i)"
    and "k \<le> maxRetries"
  shows "fetchPatientsPage srv pn lm w =
     fetch_attempts srv pn lm k
       (w\<lparr>requests := requests w + k,
          trace := trace w @ CallFetchPatientsPage pn lm #
                     concat (map (retry_events pn lm st) [0..<k])\<rparr>)"
proof -
  let ?w = "emit [CallFetchPatientsPage pn lm] w"
  have "fetch_attempts srv pn lm 0 ?w =
     fetch_attempts srv pn lm (0 + k)
       (?w\<lparr>requests := requests ?w + k,
          trace := trace ?w @ concat (map (retry_events pn lm st) [0..<0 + k])\<rparr>)"
    using assms by (intro fetch_attempts_failures) (simp_all add: emit_def)
  then show ?thesis by (simp add: fetchPatientsPage_def emit_def)
qed

text \<open>
  C4. On a transient failure \<open>fetchPatientsPage\<close> waits \<open>baseDelay * 2^attempt\<close>, the attempt
  counted from 0, and tries again, ten attempts at most. When all ten attempts fail with a
  transient status it returns the empty result (no records, no pagination) after ten
  requests, not an error. When the first \<open>k < 10\<close> attempts fail with a transient status
  and the next one succeeds (\<open>k = 5\<close>: five failures, success on the sixth), it returns what
  the successful response holds.
\<close>

theorem fetch_backoff_and_cap:
  "(\<forall>srv pn lm w st.
      (\<forall>i<maxRetries. get_response srv (requests w + i) pn lm = Fail (st i) \<and> transient (st i)) \<longrightarrow>
      fetchPatientsPage srv pn lm w =
        (empty_result,
         w\<lparr>requests := requests w + maxRetries,
           trace := trace w @ CallFetchPatientsPage pn lm #
                      concat (map (retry_events pn lm st) [0..<maxRetries])\<rparr>))
   \<and> (\<forall>srv pn lm w st k b.
      k < maxRetries \<and>
      (\<forall>i<k. get_response srv (requests w + i) pn lm = Fail (st i) \<and> transient (st i)) \<and>
      get_response srv (requests w + k) pn lm = Ok b \<longrightarrow>
      fetchPatientsPage srv pn lm w =
        (extract_body b,
         w\<lparr>requests := requests w + k + 1,
           trace := trace w @ CallFetchPatientsPage pn lm #
                      concat (map (retry_events pn lm st) [0..<k]) @ [Get pn lm]\<rparr>))
   \<and> (\<forall>pn lm st i. retry_events pn lm st i =
          [Get pn lm, WarnRetry (i + 1) pn (1000 * 2 ^ i) (st i), Sleep (1000 * 2 ^ i)])
   \<and> maxRetries = 10
   \<and> empty_result = \<lparr>patients = [], pagination = None\<rparr>"
proof (intro conjI allI impI)
  fix srv :: service and pn lm and w :: world and st
  assume h: "\<forall>i<maxRetries. get_response srv (requests w + i) pn lm = Fail (st i) \<and> transient (st i)"
  have "fetchPatientsPage srv pn lm w =
     fetch_attempts srv pn lm maxRetries
       (w\<lparr>requests := requests w + maxRetries,
          trace := trace w @ CallFetchPatientsPage pn lm #
                     concat (map (retry_events pn lm st) [0..<maxRetries])\<rparr>)"
    using h by (intro fetchPatientsPage_failures_then) simp_all
  then show "fetchPatientsPage srv pn lm w =
        (empty_result,
         w\<lparr>requests := requests w + maxRetries,
           trace := trace w @ CallFetchPatientsPage pn lm #
                      concat (map (retry_events pn lm st) [0..<maxRetries])\<rparr>)"
    by (simp add: fetch_attempts_exhausted)
next
  fix srv :: service and pn lm and w :: world and st k b
  assume h: "k < maxRetries \<and>
      (\<forall>i<k. get_response srv (requests w + i) pn lm = Fail (st i) \<and> transient (st i)) \<and>
      get_response srv (requests w + k) pn lm = Ok b"
  have "fetchPatientsPage srv pn lm w =
     fetch_attempts srv pn lm k
       (w\<lparr>requests := requests w + k,
          trace := trace w @ CallFetchPatientsPage pn lm #
                     concat (map (retry_events pn lm st) [0..<k])\<rparr>)"
    using h by (intro fetchPatientsPage_failures_then) simp_all
  then show "fetchPatientsPage srv pn lm w =
        (extract_body b,
         w\<lparr>requests := requests w + k + 1,
           trace := trace w @ CallFetchPatientsPage pn lm #
                      concat (map (retry_events pn lm st) [0..<k]) @ [Get pn lm]\<rparr>)"
    using h by (simp add: fetch_attempts_ok)
qed (simp_all add: retry_events_def baseDelay_def maxRetries_def empty_result_def)

text \<open>
  A service that fails five times with status 503 and then answers, and one that always
  answers 429.
\<close>

theorem fetch_backoff_and_cap_witness:
  "(5::nat) < maxRetries
   \<and> map (\<lambda>i. get_response flaky_service (requests world0 + i) 1 5) [0, 1, 2, 3, 4] =
       [Fail (Some 503), Fail (Some 503), Fail (Some 503), Fail (Some 503), Fail (Some 503)]
   \<and> transient (Some 503)
   \<and> get_response flaky_service (requests world0 + 5) 1 5 =
       Ok (Some \<lparr>body_data = Some [sample_patient ''p1''], body_pagination = None\<rparr>)
   \<and> fetchPatientsPage flaky_service 1 5 world0 =
       (\<lparr>patients = [sample_patient ''p1''], pagination = None\<rparr>,
        \<lparr>requests = 6,
         trace = [CallFetchPatientsPage 1 5,
                  Get 1 5, WarnRetry 1 1 1000 (Some 503), Sleep 1000,
                  Get 1 5, WarnRetry 2 1 2000 (Some 503), Sleep 2000,
                  Get 1 5, WarnRetry 3 1 4000 (Some 503), Sleep 4000,
                  Get 1 5, WarnRetry 4 1 8000 (Some 503), Sleep 8000,
                  Get 1 5, WarnRetry 5 1 16000 (Some 503), Sleep 16000,
                  Get 1 5],
         isFetching = False\<rparr>)
   \<and> fst (fetchPatientsPage down_service 1 5 world0) = \<lparr>patients = [], pagination = None\<rparr>
   \<and> requests (snd (fetchPatientsPage down_service 1 5 world0)) = 10"
proof -
  note T = fetch_backoff_and_cap
  have k: "(5::nat) < maxRetries" by (simp add: maxRetries_def)
  have f: "\<forall>i<5. get_response flaky_service (requests world0 + i) 1 5 = Fail (Some 503) \<and>
              transient (Some 503)"
    by (simp add: flaky_service_def world0_def transient_def)
  have ok: "get_response flaky_service (requests world0 + 5) 1 5 =
       Ok (Some \<lparr>body_data = Some [sample_patient ''p1''], body_pagination = None\<rparr>)"
    by (simp add: flaky_service_def world0_def)
  have up: "[0..<5] = [0, 1, 2, 3, 4]" by (simp add: upt_rec)
  have c: "fetchPatientsPage flaky_service 1 5 world0 =
       (extract_body (Some \<lparr>body_data = Some [sample_patient ''p1''], body_pagination = None\<rparr>),
        world0\<lparr>requests := requests world0 + 5 + 1,
           trace := trace world0 @ CallFetchPatientsPage 1 5 #
                      concat (map (retry_events 1 5 (\<lambda>i. Some 503)) [0..<5]) @ [Get 1 5]\<rparr>)"
    using T [THEN conjunct2, THEN conjunct1, rule_format,
        of 5 flaky_service world0 1 5 "\<lambda>i. Some 503"] k f ok by simp
  have d: "\<forall>i<maxRetries. get_response down_service (requests world0 + i) 1 5 = Fail (Some 429) \<and>
              transient (Some 429)"
    by (simp add: down_service_def transient_def)
  have e: "fetchPatientsPage down_service 1 5 world0 =
        (empty_result,
         world0\<lparr>requests := requests world0 + maxRetries,
           trace := trace world0 @ CallFetchPatientsPage 1 5 #
                      concat (map (retry_events 1 5 (\<lambda>i. Some 429)) [0..<maxRetries])\<rparr>)"
    using T [THEN conjunct1, rule_format, of down_service world0 1 5 "\<lambda>i. Some 429"] d by simp
  have g: "map (\<lambda>i. get_response flaky_service (requests world0 + i) 1 5) [0, 1, 2, 3, 4] =
       [Fail (Some 503), Fail (Some 503), Fail (Some 503), Fail (Some 503), Fail (Some 503)]"
    "transient (Some 503)"
    by (simp_all add: flaky_service_def world0_def transient_def)
  show ?thesis
    using k g ok c e
    by (simp add: up extract_body_def world0_def retry_events_def baseDelay_def maxRetries_def
        empty_result_def)
qed

text \<open>
  C9. On a failure whose status is not 429, 500, 502 or 503 (no status at all included)
  \<open>fetchPatientsPage\<close> stops at once: it returns the empty result, having made no further
  request and slept no further time, whether the failure comes at the first attempt or
  after some transient failures.
\<close>

theorem fetch_terminal_failure:
  "(\<forall>srv pn lm w t.
      get_response srv (requests w) pn lm = Fail t \<and> \<not> transient t \<longrightarrow>
      fetchPatientsPage srv pn lm w =
        (\<lparr>patients = [], pagination = None\<rparr>,
         w\<lparr>requests := requests w + 1,
           trace := trace w @ [CallFetchPatientsPage pn lm, Get pn lm, ErrorUnrecoverable pn]\<rparr>))
   \<and> (\<forall>srv pn lm w st k t.
      k < maxRetries \<and>
      (\<forall>i<k. get_response srv (requests w + i) pn lm = Fail (st i) \<and> transient (st i)) \<and>
      get_response srv (requests w + k) pn lm = Fail t \<and> \<not> transient t \<longrightarrow>
      fetchPatientsPage srv pn lm w =
        (\<lparr>patients = [], pagination = None\<rparr>,
         w\<lparr>requests := requests w + k + 1,
           trace := trace w @ CallFetchPatientsPage pn lm #
                      concat (map (retry_events pn lm st) [0..<k]) @
                      [Get pn lm, ErrorUnrecoverable pn]\<rparr>))
   \<and> (\<forall>t. transient t = (t = Some 429 \<or> t = Some 500 \<or> t = Some 502 \<or> t = Some 503))"
proof (intro conjI allI impI)
  fix srv :: service and pn lm and w :: world and st k t
  assume h: "k < maxRetries \<and>
      (\<forall>i<k. get_response srv (requests w + i) pn lm = Fail (st i) \<and> transient (st i)) \<and>
      get_response srv (requests w + k) pn lm = Fail t \<and> \<not> transient t"
  have "fetchPatientsPage srv pn lm w =
     fetch_attempts srv pn lm k
       (w\<lparr>requests := requests w + k,
          trace := trace w @ CallFetchPatientsPage pn lm #
                     concat (map (retry_events pn lm st) [0..<k])\<rparr>)"
    using h by (intro fetchPatientsPage_failures_then) simp_all
  then show "fetchPatientsPage srv pn lm w =
        (\<lparr>patients = [], pagination = None\<rparr>,
         w\<lparr>requests := requests w + k + 1,
           trace := trace w @ CallFetchPatientsPage pn lm #
                      concat (map (retry_events pn lm st) [0..<k]) @
                      [Get pn lm, ErrorUnrecoverable pn]\<rparr>)"
    using h by (simp add: fetch_attempts_terminal empty_result_def)
next
  fix srv :: service and pn lm and w :: world and t
  assume h: "get_response srv (requests w) pn lm = Fail t \<and> \<not> transient t"
  then show "fetchPatientsPage srv pn lm w =
        (\<lparr>patients = [], pagination = None\<rparr>,
         w\<lparr>requests := requests w + 1,
           trace := trace w @ [CallFetchPatientsPage pn lm, Get pn lm, ErrorUnrecoverable pn]\<rparr>)"
    by (simp add: fetchPatientsPage_def fetch_attempts_terminal emit_def maxRetries_def
        empty_result_def)
next
  fix t
  show "transient t = (t = Some 429 \<or> t = Some 500 \<or> t = Some 502 \<or> t = Some 503)"
    by (auto simp: transient_def)
qed

text \<open>A service that answers 404, and one that cannot be reached.\<close>

theorem fetch_terminal_failure_witness:
  "get_response (refusing_service (Some 404)) (requests world0) 1 5 = Fail (Some 404)
   \<and> \<not> transient (Some 404)
   \<and> fetchPatientsPage (refusing_service (Some 404)) 1 5 world0 =
       (\<lparr>patients = [], pagination = None\<rparr>,
        \<lparr>requests = 1,
         trace = [CallFetchPatientsPage 1 5, Get 1 5, ErrorUnrecoverable 1],
         isFetching = False\<rparr>)
   \<and> get_response (refusing_service None) (requests world0) 1 5 = Fail None
   \<and> \<not> transient None
   \<and> fetchPatientsPage (refusing_service None) 1 5 world0 =
       (\<lparr>patients = [], pagination = None\<rparr>,
        \<lparr>requests = 1,
         trace = [CallFetchPatientsPage 1 5, Get 1 5, ErrorUnrecoverable 1],
         isFetching = False\<rparr>)"
proof -
  note T = fetch_terminal_failure [THEN conjunct1, rule_format]
  have a: "get_response (refusing_service (Some 404)) (requests world0) 1 5 = Fail (Some 404) \<and>
      \<not> transient (Some 404)"
    by (simp add: refusing_service_def transient_def)
  have b: "get_response (refusing_service None) (requests world0) 1 5 = Fail None \<and>
      \<not> transient None"
    by (simp add: refusing_service_def transient_def)
  show ?thesis
    using a b T [OF a] T [OF b] by (simp add: world0_def)
qed

section \<open>The orchestrator: routing\<close>

lemma scores_iff: "scores p = (\<exists>r. calculateRiskScore p = Inr r)"
  by (cases "calculateRiskScore p") (simp_all add: scores_def)

lemma not_scores_iff: "(\<not> scores p) = (calculateRiskScore p = Inl TypeError)"
  by (cases "calculateRiskScore p") (simp_all add: scores_def error_TypeError)




lemma score_patient_scores:
  assumes "scores p"
  shows "score_patient p s = Inr (annotated p, routed [p] s)"
proof -
  obtain r where r: "calculateRiskScore p = Inr r" using assms by (auto simp: scores_iff)
  show ?thesis
    by (simp add: score_patient_def r Let_def annotated_def routed_def total_score_def
        fever_of_def issue_of_def)
qed

lemma score_patient_throws: "\<not> scores p \<Longrightarrow> score_patient p s = Inl TypeError"
  by (simp add: not_scores_iff score_patient_def)

lemma routed_Nil: "routed [] s = s"
  by (simp add: routed_def)

lemma routed_Cons: "routed ps (routed [p] s) = routed (p # ps) s"
  by (simp add: routed_def)

lemma score_patients_scores:
  "list_all scores ps \<Longrightarrow> score_patients ps s = Inr (map annotated ps, routed ps s)"
proof (induction ps arbitrary: s)
  case Nil
  then show ?case by (simp add: routed_Nil)
next
  case (Cons p ps)
  then have p: "scores p" and ps: "list_all scores ps" by simp_all
  show ?case
    by (simp add: score_patient_scores [OF p] Cons.IH [OF ps] routed_Cons)
qed

lemma score_patients_throws:
  "\<not> list_all scores ps \<Longrightarrow> score_patients ps s = Inl TypeError"
proof (induction ps arbitrary: s)
  case Nil
  then show ?case by simp
next
  case (Cons p ps)
  show ?case
  proof (cases "scores p")
    case False
    then show ?thesis by (simp add: score_patient_throws)
  next
    case True
    with Cons.prems have "\<not> list_all scores ps" by simp
    then show ?thesis by (simp add: score_patient_scores [OF True] Cons.IH)
  qed
qed

lemma routed_fields:
  "page (routed ps s) = page s"
  "hasNext (routed ps s) = hasNext s"
  "failedPages (routed ps s) = failedPages s"
  "expectedTotal (routed ps s) = expectedTotal s"
  "allPatients (routed ps s) = allPatients s"
  "highRiskPatientIds (routed ps s) =
     highRiskPatientIds s @ map patient_id (filter (\<lambda>p. 4 \<le> total_score p) ps)"
  "feverPatientIds (routed ps s) = feverPatientIds s @ map patient_id (filter fever_of ps)"
  "dataQualityIssueIds (routed ps s) =
     dataQualityIssueIds s @ map patient_id (filter issue_of ps)"
  by (simp_all add: routed_def)

lemma folded_in_fields:
  "page (folded_in ps s) = page s"
  "hasNext (folded_in ps s) = hasNext s"
  "failedPages (folded_in ps s) = failedPages s"
  "expectedTotal (folded_in ps s) = expectedTotal s"
  "allPatients (folded_in ps s) = allPatients s @ map annotated ps"
  "highRiskPatientIds (folded_in ps s) =
     highRiskPatientIds s @ map patient_id (filter (\<lambda>p. 4 \<le> total_score p) ps)"
  "feverPatientIds (folded_in ps s) = feverPatientIds s @ map patient_id (filter fever_of ps)"
  "dataQualityIssueIds (folded_in ps s) =
     dataQualityIssueIds s @ map patient_id (filter issue_of ps)"
  by (simp_all add: folded_in_def routed_def)

section \<open>The orchestrator: the two loops\<close>

lemma update_expectedTotal_fields:
  "page (update_expectedTotal g s) = page s"
  "hasNext (update_expectedTotal g s) = hasNext s"
  "failedPages (update_expectedTotal g s) = failedPages s"
  "allPatients (update_expectedTotal g s) = allPatients s"
  "highRiskPatientIds (update_expectedTotal g s) = highRiskPatientIds s"
  "feverPatientIds (update_expectedTotal g s) = feverPatientIds s"
  "dataQualityIssueIds (update_expectedTotal g s) = dataQualityIssueIds s"
  by (simp_all add: update_expectedTotal_def split: option.splits)

lemma next_flag_iff:
  "next_flag g = (\<exists>pg. g = Some pg \<and> pg_hasNext pg = JBool True)"
  by (auto simp: next_flag_def split: option.splits json.splits)

lemma main_step_empty:
  assumes "fetchPatientsPage srv (page s) limit (sleep 300 w) = (r, w2)" and "patients r = []"
  shows "main_step srv (s, w) =
     Inr ((update_expectedTotal (pagination r) s)
            \<lparr>failedPages := failedPages s @ [page s], page := page s + 1\<rparr>,
          emit [WarnNoPatients (page s)] w2)"
  using assms by (simp add: main_step_def Let_def update_expectedTotal_fields)

lemma main_step_records:
  assumes "fetchPatientsPage srv (page s) limit (sleep 300 w) = (r, w2)" and "patients r \<noteq> []"
    and "list_all scores (patients r)"
  shows "main_step srv (s, w) =
       Inr ((folded_in (patients r) (update_expectedTotal (pagination r) s))
               \<lparr>hasNext := next_flag (pagination r), page := page s + 1\<rparr>,
            sleep 200 w2)"
  using assms
  by (simp add: main_step_def Let_def score_patients_scores folded_in_def routed_fields
      update_expectedTotal_fields)

lemma main_step_throws:
  assumes "fetchPatientsPage srv (page s) limit (sleep 300 w) = (r, w2)" and "patients r \<noteq> []"
    and "\<not> list_all scores (patients r)"
  shows "main_step srv (s, w) = Inl TypeError"
  using assms by (simp add: main_step_def Let_def score_patients_throws)






text \<open>The records of a page are those of a response of the service, or none.\<close>

lemma extract_body_scorable:
  assumes "sends_scorable srv" "get_response srv n pn lm = Ok b"
  shows "list_all scores (patients (extract_body b))"
proof (cases b)
  case None
  then show ?thesis by (simp add: extract_body_def)
next
  case (Some b')
  show ?thesis
  proof (cases "body_data b'")
    case None
    with Some show ?thesis by (simp add: extract_body_def)
  next
    case (Some ps)
    with \<open>b = Some b'\<close> assms have "list_all scores ps"
      unfolding sends_scorable_def by blast
    with Some \<open>b = Some b'\<close> show ?thesis by (simp add: extract_body_def)
  qed
qed

lemma fetch_attempts_scorable:
  "sends_scorable srv \<Longrightarrow> list_all scores (patients (fst (fetch_attempts srv pn lm retries w)))"
proof (induction srv pn lm retries w rule: fetch_attempts.induct)
  case (1 srv pn lm retries w)
  show ?case
  proof (cases "retries < maxRetries")
    case False
    then show ?thesis
      by (simp add: fetch_attempts.simps [of srv pn lm retries w] empty_result_def)
  next
    case True
    show ?thesis
    proof (cases "get_response srv (requests w) pn lm")
      case (Ok b)
      with True extract_body_scorable [OF "1.prems" Ok] show ?thesis
        by (simp add: fetch_attempts.simps [of srv pn lm retries w])
    next
      case (Fail st)
      show ?thesis
      proof (cases "transient st")
        case False
        with True Fail show ?thesis
          by (simp add: fetch_attempts.simps [of srv pn lm retries w] empty_result_def)
      next
        case tr: True
        from "1.IH" [OF True refl Fail tr refl "1.prems"] True Fail tr show ?thesis
          by (simp add: fetch_attempts.simps [of srv pn lm retries w] Let_def)
      qed
    qed
  qed
qed

lemma fetchPatientsPage_scorable:
  "sends_scorable srv \<Longrightarrow> fetchPatientsPage srv pn lm w = (r, w2) \<Longrightarrow>
   list_all scores (patients r)"
  using fetch_attempts_scorable [of srv pn lm 0 "emit [CallFetchPatientsPage pn lm] w"]
  by (simp add: fetchPatientsPage_def)







lemma main_step_returns:
  assumes "sends_scorable srv"
  shows "\<exists>s' w'. main_step srv (s, w) = Inr (s', w')"
proof -
  obtain r w2 where f: "fetchPatientsPage srv (page s) limit (sleep 300 w) = (r, w2)"
    by (cases "fetchPatientsPage srv (page s) limit (sleep 300 w)") auto
  have sc: "list_all scores (patients r)" by (rule fetchPatientsPage_scorable [OF assms f])
  show ?thesis
  proof (cases "patients r = []")
    case True
    then show ?thesis using main_step_empty [OF f True] by simp
  next
    case False
    then show ?thesis using main_step_records [OF f False sc] by simp
  qed
qed

section \<open>The orchestrator: the submitted sets\<close>

lemma set_spread_fold:
  "distinct acc \<Longrightarrow>
   distinct (foldl (\<lambda>acc x. if x \<in> set acc then acc else acc @ [x]) acc xs) \<and>
   set (foldl (\<lambda>acc x. if x \<in> set acc then acc else acc @ [x]) acc xs) = set acc \<union> set xs"
  by (induction xs arbitrary: acc) auto

lemma distinct_set_spread: "distinct (set_spread xs)"
  using set_spread_fold [of "[]" xs] by (simp add: set_spread_def)

lemma set_set_spread: "set (set_spread xs) = set xs"
  using set_spread_fold [of "[]" xs] by (simp add: set_spread_def)

section \<open>A run on the sample service\<close>

lemma sample_patient_score:
  "calculateRiskScore (sample_patient i) =
     Inr \<lparr>score = 7, res_isFever = True, res_hasDataQualityIssue = False\<rparr>"
  by (simp add: sample_patient_def calculateRiskScore_def bp_block_def temp_block_def age_block_def
      temp_rule_def age_rule_def
      bp_thresholds_def mk_patient_def trim_of_def isInvalidNumber_def isNaN_def js_ge_def js_gt_def
      lit_eval str_eval to_double_eval)

lemma calm_patient_score:
  "calculateRiskScore (calm_patient i) =
     Inr \<lparr>score = 0, res_isFever = False, res_hasDataQualityIssue = False\<rparr>"
  by (simp add: calm_patient_def calculateRiskScore_def bp_block_def temp_block_def age_block_def
      temp_rule_def age_rule_def
      bp_thresholds_def mk_patient_def trim_of_def isInvalidNumber_def isNaN_def js_ge_def js_gt_def
      lit_eval str_eval)

lemma sample_patient_id: "patient_id (sample_patient i) = i" "patient_id (calm_patient i) = i"
  by (simp_all add: sample_patient_def calm_patient_def mk_patient_def)

lemma fetch_attempts_first:
  "fetch_attempts srv pn lm 0 w =
     (case get_response srv (requests w) pn lm of
        Ok b \<Rightarrow> (extract_body b, emit [Get pn lm] (w\<lparr>requests := requests w + 1\<rparr>))
      | Fail st \<Rightarrow>
          if transient st then
            fetch_attempts srv pn lm 1
              (sleep (baseDelay * 2 ^ 0) (emit [WarnRetry 1 pn (baseDelay * 2 ^ 0) st]
                 (emit [Get pn lm] (w\<lparr>requests := requests w + 1\<rparr>))))
          else (empty_result, emit [ErrorUnrecoverable pn] (emit [Get pn lm] (w\<lparr>requests := requests w + 1\<rparr>))))"
  by (simp add: fetch_attempts.simps [of srv pn lm 0 w] maxRetries_def Let_def split: response.splits)

lemma main_loop_numeral:
  "main_loop (numeral k) srv sw =
     (if hasNext (fst sw) then
        (case main_step srv sw of
           Inl e \<Rightarrow> Some (Inl e)
         | Inr sw' \<Rightarrow> main_loop (pred_numeral k) srv sw')
      else Some (Inr sw))"
  by (simp add: numeral_eq_Suc)

lemmas run_eval = fetchAllPatients_def main_loop_numeral main_step_def retry_page_def
  fetchPatientsPage_def fetch_attempts_first extract_body_def emit_def sleep_def limit_def initial_def
  update_expectedTotal_def next_flag_def score_patient_def score_patient_retry_def
  sample_patient_score calm_patient_score sample_patient_id shortfall_def submitAssessment_def
  final_payload_def set_spread_def Let_def

lemma paged_run:
  "fetchAllPatients 3 paged_service world0 =
     Some (Inr (\<lparr>high_risk_patients = [''p1'', ''p3''], fever_patients = [''p1'', ''p3''],
                 data_quality_issues = []\<rparr>,
                \<lparr>requests = 4,
                 trace = [LogStarted, Sleep 300, CallFetchPatientsPage 1 5, Get 1 5, Sleep 200,
                          Sleep 300, CallFetchPatientsPage 2 5, Get 2 5, WarnNoPatients 2,
                          Sleep 300, CallFetchPatientsPage 3 5, Get 3 5, Sleep 200,
                          Sleep 500, CallFetchPatientsPage 2 5, Get 2 5, LogCompleted,
                          Post \<lparr>high_risk_patients = [''p1'', ''p3''],
                                fever_patients = [''p1'', ''p3''], data_quality_issues = []\<rparr>,
                          LogSubmitted],
                 isFetching = False\<rparr>))"
  by (simp add: run_eval paged_service_def world0_def)

lemma fetchAllPatients_result:
  assumes "fetchAllPatients n srv w = Some (Inr (pl, w'))"
  shows "\<exists>s. pl = final_payload s \<and> Post pl \<in> set (trace w')"
  using assms
  by (auto simp: fetchAllPatients_def submitAssessment_def emit_def Let_def
      split: option.splits sum.splits prod.splits)

section \<open>The orchestrator: what is submitted\<close>

text \<open>
  C7. In every run that completes, each of the three submitted lists (high risk, fever,
  data-quality issue) holds each identifier at most once, and the payload returned is the
  one posted. The submitted list has exactly the identifiers that were pushed, however
  many times each was pushed.
\<close>

theorem submitted_sets_distinct:
  "(\<forall>n srv w pl w'. fetchAllPatients n srv w = Some (Inr (pl, w')) \<longrightarrow>
      distinct (high_risk_patients pl) \<and> distinct (fever_patients pl) \<and>
      distinct (data_quality_issues pl) \<and> Post pl \<in> set (trace w'))
   \<and> (\<forall>s. distinct (high_risk_patients (final_payload s)) \<and>
          distinct (fever_patients (final_payload s)) \<and>
          distinct (data_quality_issues (final_payload s)) \<and>
          set (high_risk_patients (final_payload s)) = set (highRiskPatientIds s) \<and>
          set (fever_patients (final_payload s)) = set (feverPatientIds s) \<and>
          set (data_quality_issues (final_payload s)) = set (dataQualityIssueIds s))"
proof (intro conjI allI impI)
  fix n and srv :: service and w w' :: world and pl
  assume "fetchAllPatients n srv w = Some (Inr (pl, w'))"
  then obtain s where s: "pl = final_payload s" "Post pl \<in> set (trace w')"
    using fetchAllPatients_result by blast
  show "distinct (high_risk_patients pl)" "distinct (fever_patients pl)"
    "distinct (data_quality_issues pl)" "Post pl \<in> set (trace w')"
    using s by (simp_all add: final_payload_def distinct_set_spread)
qed (simp_all add: final_payload_def distinct_set_spread set_set_spread)

text \<open>
  On the sample service the patient \<open>p1\<close> comes on page 1 and again on the retried page 2:
  it is submitted once.
\<close>

theorem submitted_sets_distinct_witness:
  "fetchAllPatients 3 paged_service world0 =
     Some (Inr (\<lparr>high_risk_patients = [''p1'', ''p3''], fever_patients = [''p1'', ''p3''],
                 data_quality_issues = []\<rparr>,
                \<lparr>requests = 4,
                 trace = [LogStarted, Sleep 300, CallFetchPatientsPage 1 5, Get 1 5, Sleep 200,
                          Sleep 300, CallFetchPatientsPage 2 5, Get 2 5, WarnNoPatients 2,
                          Sleep 300, CallFetchPatientsPage 3 5, Get 3 5, Sleep 200,
                          Sleep 500, CallFetchPatientsPage 2 5, Get 2 5, LogCompleted,
                          Post \<lparr>high_risk_patients = [''p1'', ''p3''],
                                fever_patients = [''p1'', ''p3''], data_quality_issues = []\<rparr>,
                          LogSubmitted],
                 isFetching = False\<rparr>))
   \<and> distinct [''p1'', ''p3'']
   \<and> set_spread [''p1'', ''p3'', ''p1''] = [''p1'', ''p3'']"
proof -
  have "distinct (high_risk_patients
      \<lparr>high_risk_patients = [''p1'', ''p3''], fever_patients = [''p1'', ''p3''],
       data_quality_issues = []\<rparr>)"
    using submitted_sets_distinct [THEN conjunct1, rule_format, OF paged_run] by blast
  then show ?thesis
    using paged_run by (simp add: set_spread_def)
qed

section \<open>The orchestrator: the high-risk threshold\<close>











lemma borderline_patient_score:
  "calculateRiskScore (borderline_patient i) =
     Inr \<lparr>score = 4, res_isFever = True, res_hasDataQualityIssue = False\<rparr>"
  by (simp add: borderline_patient_def calculateRiskScore_def bp_block_def temp_block_def
      age_block_def temp_rule_def age_rule_def
      bp_thresholds_def mk_patient_def trim_of_def isInvalidNumber_def isNaN_def
      js_ge_def js_gt_def lit_eval str_eval)

lemma below_patient_score:
  "calculateRiskScore (below_patient i) =
     Inr \<lparr>score = 3, res_isFever = False, res_hasDataQualityIssue = False\<rparr>"
  by (simp add: below_patient_def calculateRiskScore_def bp_block_def temp_block_def
      age_block_def temp_rule_def age_rule_def
      bp_thresholds_def mk_patient_def trim_of_def isInvalidNumber_def isNaN_def
      js_ge_def js_gt_def lit_eval str_eval)

lemma faulty_patient_score: "calculateRiskScore (faulty_patient i) = Inl TypeError"
  by (simp add: calculateRiskScore_throws faulty_patient_def mk_patient_def)

lemma sample_scores:
  "scores (sample_patient i)" "scores (calm_patient i)" "scores (borderline_patient i)"
  "scores (below_patient i)" "\<not> scores (faulty_patient i)"
  by (simp_all add: scores_def sample_patient_score calm_patient_score borderline_patient_score
      below_patient_score faulty_patient_score)




section \<open>The orchestrator: pages without records\<close>








section \<open>The orchestrator: the end of the pagination\<close>

text \<open>
  C6. After a page with records, all of which can be scored, the loop flag becomes true
  exactly when the page has a pagination object whose \<open>hasNext\<close> is the boolean true; with
  no pagination object, no \<open>hasNext\<close> in it, or a \<open>hasNext\<close> that is not a boolean, the flag
  becomes false, and the main loop ends with that turn. A page with a record that cannot be
  scored makes the turn, and the loop, throw before the flag is set.
\<close>

theorem hasNext_advisory:
  "(\<forall>srv s w r w2.
      fetchPatientsPage srv (page s) limit (sleep 300 w) = (r, w2) \<and> patients r \<noteq> [] \<and>
      list_all scores (patients r) \<longrightarrow>
      (\<exists>s'. main_step srv (s, w) = Inr (s', sleep 200 w2) \<and>
         page s' = page s + 1 \<and> failedPages s' = failedPages s \<and>
         hasNext s' = (\<exists>g. pagination r = Some g \<and> pg_hasNext g = JBool True) \<and>
         (hasNext s \<and> \<not> hasNext s' \<longrightarrow>
            (\<forall>n. main_loop (Suc n) srv (s, w) = Some (Inr (s', sleep 200 w2))))))
   \<and> (\<forall>srv s w r w2.
      fetchPatientsPage srv (page s) limit (sleep 300 w) = (r, w2) \<and> patients r \<noteq> [] \<and>
      \<not> list_all scores (patients r) \<longrightarrow>
      main_step srv (s, w) = Inl TypeError \<and>
      (hasNext s \<longrightarrow> (\<forall>n. main_loop (Suc n) srv (s, w) = Some (Inl TypeError))))
   \<and> next_flag None = False
   \<and> (\<forall>t. next_flag (Some \<lparr>pg_total = t, pg_hasNext = JUndefined\<rparr>) = False)
   \<and> (\<forall>t v. (\<forall>b. v \<noteq> JBool b) \<longrightarrow> next_flag (Some \<lparr>pg_total = t, pg_hasNext = v\<rparr>) = False)
   \<and> (\<forall>t b. next_flag (Some \<lparr>pg_total = t, pg_hasNext = JBool b\<rparr>) = b)"
proof (intro conjI allI impI)
  fix srv :: service and s :: orch and w w2 :: world and r
  assume h: "fetchPatientsPage srv (page s) limit (sleep 300 w) = (r, w2) \<and> patients r \<noteq> [] \<and>
      list_all scores (patients r)"
  let ?s' = "(folded_in (patients r) (update_expectedTotal (pagination r) s))
               \<lparr>hasNext := next_flag (pagination r), page := page s + 1\<rparr>"
  have 1: "main_step srv (s, w) = Inr (?s', sleep 200 w2)"
    using h main_step_records [of srv s w r w2] by blast
  have "main_loop (Suc n) srv (s, w) = Some (Inr (?s', sleep 200 w2))"
    if "hasNext s \<and> \<not> hasNext ?s'" for n
    using that 1 by (cases n) simp_all
  then show "\<exists>s'. main_step srv (s, w) = Inr (s', sleep 200 w2) \<and>
         page s' = page s + 1 \<and> failedPages s' = failedPages s \<and>
         hasNext s' = (\<exists>g. pagination r = Some g \<and> pg_hasNext g = JBool True) \<and>
         (hasNext s \<and> \<not> hasNext s' \<longrightarrow>
            (\<forall>n. main_loop (Suc n) srv (s, w) = Some (Inr (s', sleep 200 w2))))"
    using 1
    by (intro exI [of _ ?s'])
      (simp add: next_flag_iff folded_in_fields update_expectedTotal_fields)
next
  fix srv :: service and s :: orch and w w2 :: world and r
  assume h: "fetchPatientsPage srv (page s) limit (sleep 300 w) = (r, w2) \<and> patients r \<noteq> [] \<and>
      \<not> list_all scores (patients r)"
  then show 1: "main_step srv (s, w) = Inl TypeError"
    using main_step_throws [of srv s w r w2] by blast
  show "main_loop (Suc n) srv (s, w) = Some (Inl TypeError)" if "hasNext s" for n
    using that 1 by simp
next
  fix t v
  assume "\<forall>b. v \<noteq> JBool b"
  then show "next_flag (Some \<lparr>pg_total = t, pg_hasNext = v\<rparr>) = False"
    by (cases v) (auto simp add: next_flag_def)
qed (simp_all add: next_flag_def)

text \<open>
  On the sample service page 3 has a record and a pagination object without \<open>hasNext\<close>: the
  main loop ends there. A \<open>hasNext\<close> that is the string \<open>true\<close> is not a boolean. On the
  faulty service the first page holds a record that cannot be scored.
\<close>

theorem hasNext_advisory_witness:
  "fetchPatientsPage paged_service (page (initial\<lparr>page := 3\<rparr>)) limit
      (sleep 300 (world0\<lparr>requests := 2\<rparr>)) =
     (\<lparr>patients = [sample_patient ''p3''],
       pagination = Some \<lparr>pg_total = Some 4, pg_hasNext = JUndefined\<rparr>\<rparr>,
      \<lparr>requests = 3, trace = [Sleep 300, CallFetchPatientsPage 3 5, Get 3 5], isFetching = False\<rparr>)
   \<and> hasNext (initial\<lparr>page := 3\<rparr>)
   \<and> (\<exists>s'. main_step paged_service (initial\<lparr>page := 3\<rparr>, world0\<lparr>requests := 2\<rparr>) =
          Inr (s', \<lparr>requests = 3,
                    trace = [Sleep 300, CallFetchPatientsPage 3 5, Get 3 5, Sleep 200],
                    isFetching = False\<rparr>) \<and>
        page s' = 4 \<and> \<not> hasNext s' \<and>
        main_loop (Suc 6) paged_service (initial\<lparr>page := 3\<rparr>, world0\<lparr>requests := 2\<rparr>) =
          Some (Inr (s', \<lparr>requests = 3,
                          trace = [Sleep 300, CallFetchPatientsPage 3 5, Get 3 5, Sleep 200],
                          isFetching = False\<rparr>)))
   \<and> fetchPatientsPage faulty_service (page initial) limit (sleep 300 world0) =
     (\<lparr>patients = [calm_patient ''p1'', faulty_patient ''p2''],
       pagination = Some \<lparr>pg_total = Some 2, pg_hasNext = JBool False\<rparr>\<rparr>,
      \<lparr>requests = 1, trace = [Sleep 300, CallFetchPatientsPage 1 5, Get 1 5], isFetching = False\<rparr>)
   \<and> main_step faulty_service (initial, world0) = Inl TypeError
   \<and> main_loop (Suc 6) faulty_service (initial, world0) = Some (Inl TypeError)
   \<and> (\<forall>b. JStr (js ''true'') \<noteq> JBool b)
   \<and> next_flag (Some \<lparr>pg_total = None, pg_hasNext = JStr (js ''true'')\<rparr>) = False"
proof -
  note T = hasNext_advisory
  let ?r = "\<lparr>patients = [sample_patient ''p3''],
       pagination = Some \<lparr>pg_total = Some 4, pg_hasNext = JUndefined\<rparr>\<rparr>"
  let ?w2 = "\<lparr>requests = 3, trace = [Sleep 300, CallFetchPatientsPage 3 5, Get 3 5],
              isFetching = False\<rparr>"
  have f: "fetchPatientsPage paged_service (page (initial\<lparr>page := 3\<rparr>)) limit
      (sleep 300 (world0\<lparr>requests := 2\<rparr>)) = (?r, ?w2)"
    by (simp add: run_eval paged_service_def world0_def)
  have h: "fetchPatientsPage paged_service (page (initial\<lparr>page := 3\<rparr>)) limit
      (sleep 300 (world0\<lparr>requests := 2\<rparr>)) = (?r, ?w2) \<and> patients ?r \<noteq> [] \<and>
      list_all scores (patients ?r)"
    using f by (simp add: sample_scores)
  have i: "hasNext (initial\<lparr>page := 3\<rparr>)" by (simp add: initial_def)
  have "\<exists>s'. main_step paged_service (initial\<lparr>page := 3\<rparr>, world0\<lparr>requests := 2\<rparr>) =
          Inr (s', sleep 200 ?w2) \<and>
        page s' = 4 \<and> \<not> hasNext s' \<and>
        main_loop (Suc 6) paged_service (initial\<lparr>page := 3\<rparr>, world0\<lparr>requests := 2\<rparr>) =
          Some (Inr (s', sleep 200 ?w2))"
  proof -
    from T [THEN conjunct1, rule_format, OF h] obtain s' where s':
      "main_step paged_service (initial\<lparr>page := 3\<rparr>, world0\<lparr>requests := 2\<rparr>) = Inr (s', sleep 200 ?w2)"
      "page s' = page (initial\<lparr>page := 3\<rparr>) + 1"
      "hasNext s' = (\<exists>g. pagination ?r = Some g \<and> pg_hasNext g = JBool True)"
      "hasNext (initial\<lparr>page := 3\<rparr>) \<and> \<not> hasNext s' \<longrightarrow>
         (\<forall>n. main_loop (Suc n) paged_service (initial\<lparr>page := 3\<rparr>, world0\<lparr>requests := 2\<rparr>) =
              Some (Inr (s', sleep 200 ?w2)))"
      by blast
    have n: "\<not> hasNext s'" using s'(3) by simp
    have p: "page (initial\<lparr>page := 3\<rparr>) = 3" by (simp add: initial_def)
    have l: "main_loop (Suc 6) paged_service (initial\<lparr>page := 3\<rparr>, world0\<lparr>requests := 2\<rparr>) =
              Some (Inr (s', sleep 200 ?w2))"
      using s'(4) n i by blast
    show ?thesis
      using s'(1,2) n l by (intro exI [of _ s']) (simp add: p del: main_loop.simps)
  qed
  then have c: "\<exists>s'. main_step paged_service (initial\<lparr>page := 3\<rparr>, world0\<lparr>requests := 2\<rparr>) =
          Inr (s', \<lparr>requests = 3,
                    trace = [Sleep 300, CallFetchPatientsPage 3 5, Get 3 5, Sleep 200],
                    isFetching = False\<rparr>) \<and>
        page s' = 4 \<and> \<not> hasNext s' \<and>
        main_loop (Suc 6) paged_service (initial\<lparr>page := 3\<rparr>, world0\<lparr>requests := 2\<rparr>) =
          Some (Inr (s', \<lparr>requests = 3,
                          trace = [Sleep 300, CallFetchPatientsPage 3 5, Get 3 5, Sleep 200],
                          isFetching = False\<rparr>))"
    by (simp add: sleep_def emit_def del: main_loop.simps)
  let ?rf = "\<lparr>patients = [calm_patient ''p1'', faulty_patient ''p2''],
       pagination = Some \<lparr>pg_total = Some 2, pg_hasNext = JBool False\<rparr>\<rparr>"
  let ?wf = "\<lparr>requests = 1, trace = [Sleep 300, CallFetchPatientsPage 1 5, Get 1 5],
              isFetching = False\<rparr>"
  have ff: "fetchPatientsPage faulty_service (page initial) limit (sleep 300 world0) = (?rf, ?wf)"
    by (simp add: run_eval faulty_service_def world0_def)
  have hf: "fetchPatientsPage faulty_service (page initial) limit (sleep 300 world0) = (?rf, ?wf) \<and>
      patients ?rf \<noteq> [] \<and> \<not> list_all scores (patients ?rf)"
    using ff by (simp add: sample_scores)
  have hi: "hasNext initial" by (simp add: initial_def)
  from T [THEN conjunct2, THEN conjunct1, rule_format, OF hf]
  have cf: "main_step faulty_service (initial, world0) = Inl TypeError"
    and "hasNext initial \<longrightarrow>
      (\<forall>n. main_loop (Suc n) faulty_service (initial, world0) = Some (Inl TypeError))"
    by blast+
  with hi have cl: "main_loop (Suc 6) faulty_service (initial, world0) = Some (Inl TypeError)"
    by blast
  have n: "\<forall>b. JStr (js ''true'') \<noteq> JBool b" by simp
  have d: "next_flag (Some \<lparr>pg_total = None, pg_hasNext = JStr (js ''true'')\<rparr>) = False"
    using T [THEN conjunct2, THEN conjunct2, THEN conjunct2, THEN conjunct2, THEN conjunct1,
        THEN spec, THEN spec, THEN mp, OF n] .
  show ?thesis using f i c ff cf cl n d by blast
qed

end
